theory Spec2Isabelle
  imports Complex_Main "HOL-Library.Word" "HOL-Library.Monad_Syntax"
begin

section \<open>The MCMC / STUN sampler of \<open>sampler.py\<close>\<close>

text \<open>
  Conventions of the embedding.
  \<^item> A Python exception (IndexError, ValueError, TypeError, AttributeError) is the
    value \<open>None\<close> of an \<open>option\<close> result; \<open>do\<close> blocks thread it.
  \<^item> \<open>float64\<close> values are idealised as \<open>real\<close> (no rounding, no overflow). The one
    float operation without a real value, division by exact zero, is kept: numpy
    does not raise there, it yields \<open>-inf\<close>, \<open>inf\<close> or \<open>nan\<close> (type \<open>npfloat\<close>).
  \<^item> A two-dimensional ndarray is an \<open>int list list\<close> held in a store
    (\<open>arrays\<close>, indexed by an address), because \<open>self.config[i]\<close> and
    \<open>self.propConfig[i]\<close> are views: what the optimum lists keep is a reference
    \<open>(address, row)\<close>, and a later in-place write to that row is seen through it.
  \<^item> Every draw of \<open>np.random\<close> is an input of the function that consumes it.
\<close>

subsection \<open>numpy and list primitives\<close>

datatype npfloat = Fin real | PInf | NInf | NaN

text \<open>\<open>a / b\<close> on float64 scalars and arrays.\<close>

definition np_div :: "real \<Rightarrow> real \<Rightarrow> npfloat" where
  "np_div a b =
     (if b \<noteq> 0 then Fin (a / b)
      else if 0 < a then PInf
      else if a < 0 then NInf
      else NaN)"

fun np_exp :: "npfloat \<Rightarrow> npfloat" where
  "np_exp (Fin x) = Fin (exp x)"
| "np_exp PInf = PInf"
| "np_exp NInf = Fin 0"
| "np_exp NaN = NaN"

text \<open>\<open>np.minimum(1, x)\<close>: the smaller value, \<open>nan\<close> propagated.\<close>

fun np_minimum1 :: "npfloat \<Rightarrow> npfloat" where
  "np_minimum1 (Fin x) = Fin (min 1 x)"
| "np_minimum1 PInf = Fin 1"
| "np_minimum1 NInf = NInf"
| "np_minimum1 NaN = NaN"

text \<open>\<open>a < x\<close> and \<open>x < b\<close> with one float64 operand possibly not finite;
  every comparison with \<open>nan\<close> is False.\<close>

fun lt_np :: "real \<Rightarrow> npfloat \<Rightarrow> bool" where
  "lt_np a (Fin x) = (a < x)"
| "lt_np a PInf = True"
| "lt_np a NInf = False"
| "lt_np a NaN = False"

fun np_lt :: "npfloat \<Rightarrow> real \<Rightarrow> bool" where
  "np_lt (Fin x) b = (x < b)"
| "np_lt PInf b = False"
| "np_lt NInf b = True"
| "np_lt NaN b = False"

text \<open>Elementwise binary operation on one-dimensional arrays, with numpy's
  broadcasting of a length-one operand; any other shape mismatch raises.\<close>

definition bcast2 :: "('a \<Rightarrow> 'b \<Rightarrow> 'c) \<Rightarrow> 'a list \<Rightarrow> 'b list \<Rightarrow> 'c list option" where
  "bcast2 f xs ys =
     (if length xs = length ys then Some (map2 f xs ys)
      else if length xs = 1 then Some (map (f (hd xs)) ys)
      else if length ys = 1 then Some (map (\<lambda>x. f x (hd ys)) xs)
      else None)"

text \<open>\<open>xs[i]\<close> for \<open>i\<close> from \<open>range\<close> (never negative): IndexError out of range.\<close>

definition item :: "'a list \<Rightarrow> nat \<Rightarrow> 'a option" where
  "item xs i = (if i < length xs then Some (xs ! i) else None)"

text \<open>\<open>xs[i] = v\<close> with a Python integer index: a negative index counts from the end.\<close>

definition setitem :: "'a list \<Rightarrow> int \<Rightarrow> 'a \<Rightarrow> 'a list option" where
  "setitem xs i v =
     (if 0 \<le> i \<and> i < int (length xs) then Some (xs[nat i := v])
      else if - int (length xs) \<le> i \<and> i < 0 then Some (xs[nat (int (length xs) + i) := v])
      else None)"

text \<open>\<open>xss[i].append(v)\<close>.\<close>

definition append_at :: "'a list list \<Rightarrow> nat \<Rightarrow> 'a \<Rightarrow> 'a list list option" where
  "append_at xss i v = (if i < length xss then Some (xss[i := xss ! i @ [v]]) else None)"

text \<open>\<open>xs[-1]\<close>.\<close>

definition last_item :: "'a list \<Rightarrow> 'a option" where
  "last_item xs = (if xs = [] then None else Some (last xs))"

text \<open>\<open>A[i] = row\<close> on a two-dimensional ndarray: in place, the shapes must agree
  (numpy would also broadcast a row of length one; \<open>propConfig\<close> is a copy of
  \<open>config\<close> and \<open>makeAConfig\<close> pads to the full width, so that case is left out).\<close>

definition setrow :: "int list list \<Rightarrow> nat \<Rightarrow> int list \<Rightarrow> int list list option" where
  "setrow A i row =
     (if i < length A \<and> length row = length (A ! i) then Some (A[i := row]) else None)"

definition count_nonzero :: "int list \<Rightarrow> nat" where
  "count_nonzero row = length (filter (\<lambda>x. x \<noteq> 0) row)"

text \<open>\<open>for i in range(n): body\<close>, stopping at the first exception.\<close>

primrec for_each :: "(nat \<Rightarrow> 's \<Rightarrow> 's option) \<Rightarrow> nat list \<Rightarrow> 's \<Rightarrow> 's option" where
  "for_each body [] s = Some s"
| "for_each body (i # js) s = do { s' \<leftarrow> body i s; for_each body js s' }"

subsection \<open>Data model\<close>

text \<open>\<open>config_main.dataset\<close> and the fields of \<open>config_main\<close> the sampler reads.\<close>

record dataset_config =
  min_length :: int
  max_length :: int
  dict_size :: int
  variable_length :: bool

record main_config =
  dataset :: dataset_config
  STUN :: int
  target_acceptance_rate :: real
  debug :: bool
  sampling_time :: nat
  post_annealing_time :: nat

type_synonym addr = nat
type_synonym rowref = "addr \<times> nat"

text \<open>The draw buffers of \<open>resampleRandints\<close>, with their dtypes; \<open>b i k\<close> is
  \<open>b[i, k]\<close>. Both indices stay in range by construction (\<open>i < nruns\<close>,
  \<open>k = iter % randintsResampleAt\<close>), so the buffers are total functions.\<close>

record draws =
  spinRandints :: "nat \<Rightarrow> nat \<Rightarrow> 8 word"
  pickSpinRandint :: "nat \<Rightarrow> nat \<Rightarrow> 32 word"
  alphaRandoms :: "nat \<Rightarrow> nat \<Rightarrow> real"
  changeLengthRandints :: "nat \<Rightarrow> nat \<Rightarrow> 8 word"
  seqExtensionRandints :: "nat \<Rightarrow> nat \<Rightarrow> 8 word"

text \<open>The attributes created by \<open>initOptima\<close>; they exist together, from the first
  \<open>iterate\<close> on (\<open>try: self.E0\<close>).\<close>

record tracker =
  optima :: "real list list"
  enAtOptima :: "real list list"
  varAtOptima :: "real list list"
  optimalSamples :: "rowref list list"
  optimalInds :: "nat list list"
  recInds :: "nat list list"
  newOptima :: "rowref list list"
  newOptimaEn :: "real list list"
  allOptimalConfigs :: "rowref list"
  E0 :: "real list"
  absMin :: real

text \<open>The step-by-step records of \<open>initRecs\<close> (debug mode only).\<close>

record recs =
  temprec :: "real list list"
  accrec :: "real list list"
  stunrec :: "real list list"
  scorerec :: "real list list"
  enrec :: "real list list"
  varrec :: "real list list"

text \<open>What \<open>getScores\<close> returns: row 0 is for the proposed ensemble, row 1 for the
  current one.\<close>

record scoring =
  score :: "real list \<times> real list"
  energy :: "real list \<times> real list"
  variance :: "real list \<times> real list"

text \<open>\<open>self.F\<close>: the two STUN rows, or the placeholder \<open>[0, 0]\<close> of raw mode.\<close>

datatype stun_values = Frows "real list" "real list" | Fplaceholder

record sampler =
  config_main :: main_config
  chainLength :: int
  deltaIter :: nat
  randintsResampleAt :: nat
  recordMargin :: real
  gammas :: "real list"
  nruns :: nat
  temp0 :: real
  temperature :: "real list"
  arrays :: "addr \<Rightarrow> int list list"
  fresh :: addr
  config :: addr
  propConfig :: addr
  buffers :: draws
  resetInd :: "nat list"
  acceptanceRate :: "real list"
  iter :: nat
  ind :: nat
  scores :: scoring
  F :: stun_values
  DE :: "real list"
  acceptanceRatio :: "npfloat list"
  track :: "tracker option"
  debugrecs :: "recs option"

subsection \<open>Sequence generation\<close>

text \<open>
  \<open>makeAConfig\<close>. The two draws are inputs: \<open>randChainLen\<close> is what
  \<open>np.random.randint(min_length, max_length)\<close> returned and \<open>syms\<close> the symbols of
  the second \<open>randint\<close>. \<open>randint(low, high)\<close> raises ValueError when \<open>low >= high\<close>.
  A variable-length draw is always below \<open>max_length\<close>, so the padding branch is
  always taken.
\<close>

definition makeAConfig :: "dataset_config \<Rightarrow> int \<Rightarrow> int list \<Rightarrow> int list option" where
  "makeAConfig d randChainLen syms =
     (if variable_length d then
        (if max_length d \<le> min_length d \<or> dict_size d + 1 \<le> 1 \<or> randChainLen < 0 then None
         else if randChainLen < max_length d
           then Some (syms @ replicate (nat (max_length d - randChainLen)) 0)
           else Some syms)
      else
        (if dict_size d + 1 \<le> 1 \<or> max_length d < 0 then None else Some syms))"

text \<open>What numpy guarantees about the two draws.\<close>

definition draw_ok :: "dataset_config \<Rightarrow> int \<Rightarrow> int list \<Rightarrow> bool" where
  "draw_ok d randChainLen syms \<longleftrightarrow>
     list_all (\<lambda>x. 1 \<le> x \<and> x \<le> dict_size d) syms \<and>
     (if variable_length d
      then min_length d \<le> randChainLen \<and> randChainLen < max_length d \<and>
           int (length syms) = randChainLen
      else int (length syms) = max_length d)"

text \<open>\<open>resetConfig\<close>: \<open>self.config[ind,:] = self.makeAConfig()\<close>, in place.\<close>

definition resetConfig :: "nat \<Rightarrow> int \<Rightarrow> int list \<Rightarrow> sampler \<Rightarrow> sampler option" where
  "resetConfig i randChainLen syms s = do {
     row \<leftarrow> makeAConfig (dataset (config_main s)) randChainLen syms;
     A \<leftarrow> setrow (arrays s (config s)) i row;
     Some (s\<lparr>arrays := (arrays s)(config s := A)\<rparr>)
   }"

subsection \<open>Proposal engine\<close>

text \<open>
  The body of the loop of \<open>propConfigs\<close> on one row: the point mutation, then the
  length change. \<open>nnz\<close> is \<open>np.count_nonzero\<close> of the row after the mutation. The
  third test is the source's \<open>elif nnz == -1\<close>.
\<close>

definition propose_row ::
  "dataset_config \<Rightarrow> int list \<Rightarrow> 32 word \<Rightarrow> 8 word \<Rightarrow> 8 word \<Rightarrow> 8 word \<Rightarrow> int list option" where
  "propose_row d row pick spin change ext = do {
     row1 \<leftarrow> setitem row (uint pick) (uint spin);
     if variable_length d then
       (if change = 0 then Some row1
        else
          (let nnz = int (count_nonzero row1) in
           if change = 1 then
             (if nnz < max_length d then setitem row1 nnz (uint ext) else Some row1)
           else if nnz = - 1 then
             (if nnz > min_length d then setitem row1 (nnz - 1) 0 else Some row1)
           else Some row1))
     else Some row1
   }"

definition propConfigs_body :: "nat \<Rightarrow> nat \<Rightarrow> sampler \<Rightarrow> sampler option" where
  "propConfigs_body k i s = do {
     row \<leftarrow> item (arrays s (propConfig s)) i;
     row' \<leftarrow> propose_row (dataset (config_main s)) row
               (pickSpinRandint (buffers s) i k) (spinRandints (buffers s) i k)
               (changeLengthRandints (buffers s) i k) (seqExtensionRandints (buffers s) i k);
     Some (s\<lparr>arrays := (arrays s)(propConfig s := (arrays s (propConfig s))[i := row'])\<rparr>)
   }"

text \<open>\<open>self.propConfig = np.copy(self.config)\<close> allocates a new array.\<close>

definition copy_config :: "sampler \<Rightarrow> sampler" where
  "copy_config s =
     s\<lparr>arrays := (arrays s)(fresh s := arrays s (config s)),
       propConfig := fresh s,
       fresh := Suc (fresh s)\<rparr>"

definition propConfigs :: "nat \<Rightarrow> sampler \<Rightarrow> sampler option" where
  "propConfigs k s = for_each (propConfigs_body k) [0..<nruns s] (copy_config s)"

subsection \<open>Optimum tracker\<close>

text \<open>The row a view refers to, read through the store.\<close>

definition view :: "sampler \<Rightarrow> rowref \<Rightarrow> int list option" where
  "view s r = item (arrays s (fst r)) (snd r)"

text \<open>
  \<open>initOptima\<close>. \<open>self.config[i]\<close> is appended as a view of row \<open>i\<close> of the current
  ensemble, not as a copy. \<open>min\<close> of an empty sequence raises ValueError, an index
  beyond a row of the scores raises IndexError.
\<close>

definition initOptima :: "scoring \<Rightarrow> sampler \<Rightarrow> sampler option" where
  "initOptima sc s =
     (let n = nruns s; cur = snd (score sc); en = snd (energy sc); var = snd (variance sc) in
      if cur = [] then None
      else if n \<le> length cur \<and> n \<le> length en \<and> n \<le> length var \<and>
              n \<le> length (arrays s (config s)) then
        Some (s\<lparr>track := Some
          \<lparr>optima = map (\<lambda>i. [cur ! i]) [0..<n],
           enAtOptima = map (\<lambda>i. [en ! i]) [0..<n],
           varAtOptima = map (\<lambda>i. [var ! i]) [0..<n],
           optimalSamples = map (\<lambda>i. [(config s, i)]) [0..<n],
           optimalInds = map (\<lambda>i. [0]) [0..<n],
           recInds = map (\<lambda>i. []) [0..<n],
           newOptima = map (\<lambda>i. [(config s, i)]) [0..<n],
           newOptimaEn = map (\<lambda>i. [en ! i]) [0..<n],
           allOptimalConfigs = [],
           E0 = cur,
           absMin = Min (set cur)\<rparr>\<rparr>)
      else None)"

text \<open>
  \<open>np.sum(row == pool, axis=1)\<close>: the pool (a list of rows) becomes a
  two-dimensional array, which needs at least one row and rows of one width; the
  comparison broadcasts \<open>row\<close> against each of them; the sum counts the equal
  positions.
\<close>

definition pool_equals :: "int list \<Rightarrow> int list list \<Rightarrow> nat list option" where
  "pool_equals row P =
     (if P = [] \<or> \<not> list_all (\<lambda>e. length e = length (hd P)) P then None
      else those (map (\<lambda>e. map_option (\<lambda>bs. length (filter id bs)) (bcast2 (=) row e)) P))"

text \<open>The pool after the first statement of \<open>saveOptima\<close>: an empty pool is
  seeded with every recorded optimal sample of every trajectory.\<close>

definition seed_pool :: "tracker \<Rightarrow> rowref list" where
  "seed_pool t =
     (if length (allOptimalConfigs t) = 0 then concat (optimalSamples t)
      else allOptimalConfigs t)"

text \<open>The block that records the proposal of trajectory \<open>i\<close> (source lines 346 to
  350); \<open>self.propConfig[ind]\<close> is kept as a view.\<close>

definition record_sample :: "nat \<Rightarrow> sampler \<Rightarrow> rowref list \<Rightarrow> tracker \<Rightarrow> tracker option" where
  "record_sample i s pool t = do {
     s0 \<leftarrow> item (fst (score (scores s))) i;
     opt \<leftarrow> append_at (optima t) i s0;
     en0 \<leftarrow> item (fst (energy (scores s))) i;
     ea \<leftarrow> append_at (enAtOptima t) i en0;
     v0 \<leftarrow> item (fst (variance (scores s))) i;
     va \<leftarrow> append_at (varAtOptima t) i v0;
     os \<leftarrow> append_at (optimalSamples t) i (propConfig s, i);
     Some (t\<lparr>optima := opt, enAtOptima := ea, varAtOptima := va, optimalSamples := os,
             allOptimalConfigs := pool @ [(propConfig s, i)]\<rparr>)
   }"

text \<open>The block of a new best (source lines 352 to 357).\<close>

definition record_best :: "nat \<Rightarrow> sampler \<Rightarrow> tracker \<Rightarrow> tracker option" where
  "record_best i s t = do {
     s0 \<leftarrow> item (fst (score (scores s))) i;
     e \<leftarrow> (if i < length (E0 t) then Some ((E0 t)[i := s0]) else None);
     no \<leftarrow> append_at (newOptima t) i (propConfig s, i);
     en0 \<leftarrow> item (fst (energy (scores s))) i;
     ne \<leftarrow> append_at (newOptimaEn t) i en0;
     oi \<leftarrow> append_at (optimalInds t) i (iter s);
     Some (t\<lparr>E0 := e, absMin := (if s0 < absMin t then s0 else absMin t),
             newOptima := no, newOptimaEn := ne, optimalInds := oi\<rparr>)
   }"

definition saveOptima :: "nat \<Rightarrow> bool \<Rightarrow> sampler \<Rightarrow> sampler option" where
  "saveOptima i newBest s = do {
     t \<leftarrow> track s;
     let pool = seed_pool t;
     prow \<leftarrow> item (arrays s (propConfig s)) i;
     rows \<leftarrow> those (map (view s) pool);
     equals \<leftarrow> pool_equals prow rows;
     t1 \<leftarrow> (if \<not> list_ex (\<lambda>c. c = length prow) equals \<or> newBest
            then record_sample i s pool t
            else Some (t\<lparr>allOptimalConfigs := pool\<rparr>));
     t2 \<leftarrow> (if newBest then record_best i s t1 else Some t1);
     Some (s\<lparr>track := Some t2\<rparr>)
   }"

subsection \<open>STUN and acceptance\<close>

text \<open>\<open>computeSTUN\<close> on one row of the scores; \<open>gammas\<close> broadcasts along the row.\<close>

definition computeSTUN :: "real list \<Rightarrow> real \<Rightarrow> real list \<Rightarrow> real list option" where
  "computeSTUN g a row = bcast2 (\<lambda>srow \<gamma>. 1 - exp (- \<gamma> * (srow - a))) row g"

definition getDE :: "scoring \<Rightarrow> sampler \<Rightarrow> (stun_values \<times> real list) option" where
  "getDE sc s =
     (if STUN (config_main s) = 1 then do {
        t \<leftarrow> track s;
        F0 \<leftarrow> computeSTUN (gammas s) (absMin t) (fst (score sc));
        F1 \<leftarrow> computeSTUN (gammas s) (absMin t) (snd (score sc));
        D \<leftarrow> bcast2 (\<lambda>a b. a - b) F0 F1;
        Some (Frows F0 F1, D)
      } else do {
        D \<leftarrow> bcast2 (\<lambda>a b. a - b) (fst (score sc)) (snd (score sc));
        Some (Fplaceholder, D)
      })"

text \<open>\<open>recordStats\<close>; it tests the truth value of \<open>STUN\<close>, and indexing the
  placeholder \<open>[0, 0]\<close> of raw mode as an array raises.\<close>

definition recordStats_body :: "nat \<Rightarrow> sampler \<Rightarrow> sampler option" where
  "recordStats_body i s = do {
     r \<leftarrow> debugrecs s;
     tm \<leftarrow> item (temperature s) i;
     tr \<leftarrow> append_at (temprec r) i tm;
     ac \<leftarrow> item (acceptanceRate s) i;
     ar \<leftarrow> append_at (accrec r) i ac;
     s0 \<leftarrow> item (fst (score (scores s))) i;
     sr \<leftarrow> append_at (scorerec r) i s0;
     en0 \<leftarrow> item (fst (energy (scores s))) i;
     er \<leftarrow> append_at (enrec r) i en0;
     v0 \<leftarrow> item (fst (variance (scores s))) i;
     vr \<leftarrow> append_at (varrec r) i v0;
     st \<leftarrow> (if STUN (config_main s) \<noteq> 0 then
              (case F s of
                 Frows F0 F1 \<Rightarrow> do { f \<leftarrow> item F0 i; append_at (stunrec r) i f }
               | Fplaceholder \<Rightarrow> None)
            else Some (stunrec r));
     Some (s\<lparr>debugrecs := Some (r\<lparr>temprec := tr, accrec := ar, scorerec := sr, enrec := er,
                                  varrec := vr, stunrec := st\<rparr>)\<rparr>)
   }"

definition recordStats :: "sampler \<Rightarrow> sampler option" where
  "recordStats s = for_each recordStats_body [0..<nruns s] s"

text \<open>
  The body of the loop of \<open>updateConfigs\<close> for trajectory \<open>i\<close>. The quotient
  \<open>(E0[i] - scores[0][i]) / E0[i]\<close> is evaluated only when \<open>newBest\<close> is False
  (\<open>or\<close> is lazy); nothing guards it.
\<close>

definition updateConfigs_body :: "nat \<Rightarrow> sampler \<Rightarrow> sampler option" where
  "updateConfigs_body i s = do {
     ratio \<leftarrow> item (acceptanceRatio s) i;
     if lt_np (alphaRandoms (buffers s) i (ind s)) ratio then do {
       prow \<leftarrow> item (arrays s (propConfig s)) i;
       A \<leftarrow> setrow (arrays s (config s)) i prow;
       t \<leftarrow> track s;
       ri \<leftarrow> append_at (recInds t) i (iter s);
       s0 \<leftarrow> item (fst (score (scores s))) i;
       e0 \<leftarrow> item (E0 t) i;
       let newBest = (s0 < e0);
       let s1 = s\<lparr>arrays := (arrays s)(config s := A), track := Some (t\<lparr>recInds := ri\<rparr>)\<rparr>;
       if newBest \<or> np_lt (np_div (e0 - s0) e0) (recordMargin s) then saveOptima i newBest s1
       else Some s1
     } else Some s
   }"

definition updateConfigs :: "sampler \<Rightarrow> sampler option" where
  "updateConfigs s = do {
     s' \<leftarrow> for_each updateConfigs_body [0..<nruns s] s;
     if debug (config_main s') then recordStats s' else Some s'
   }"

text \<open>
  \<open>iterate\<close>. \<open>getScores\<close> calls the scoring collaborators, which are not part of
  this file: it is the parameter \<open>gs\<close>, applied to the proposed and the current
  ensemble.
\<close>

definition acceptance :: "real \<Rightarrow> real \<Rightarrow> npfloat" where
  "acceptance d tmp = np_minimum1 (np_exp (np_div (- d) tmp))"

definition iterate :: "(int list list \<Rightarrow> int list list \<Rightarrow> scoring) \<Rightarrow> sampler \<Rightarrow> sampler option" where
  "iterate gs s = do {
     k \<leftarrow> (if randintsResampleAt s = 0 then None else Some (iter s mod randintsResampleAt s));
     s1 \<leftarrow> propConfigs k (s\<lparr>ind := k\<rparr>);
     let sc = gs (arrays s1 (propConfig s1)) (arrays s1 (config s1));
     let s2 = s1\<lparr>scores := sc\<rparr>;
     s3 \<leftarrow> (case track s2 of None \<Rightarrow> initOptima sc s2 | Some t \<Rightarrow> Some s2);
     (f, d) \<leftarrow> getDE sc s3;
     ar \<leftarrow> bcast2 acceptance d (temperature s3);
     updateConfigs (s3\<lparr>F := f, DE := d, acceptanceRatio := ar\<rparr>)
   }"

subsection \<open>Annealing controller\<close>

text \<open>
  The body of the loop of \<open>updateAnnealing\<close> for trajectory \<open>i\<close>. \<open>u\<close> is the draw of
  \<open>np.random.random(1)[0]\<close>, \<open>randChainLen\<close> and \<open>syms\<close> are the draws of
  \<open>makeAConfig\<close> should the trajectory be reset. \<open>1e3\<close> is compared with a
  difference of Python integers, which may be negative.
\<close>

definition acceptedRecently :: "nat \<Rightarrow> nat list \<Rightarrow> nat" where
  "acceptedRecently it rs =
     length (filter (\<lambda>r. int it - int r < 100) (drop (length rs - 100) rs))"

definition updateAnnealing_body ::
  "(nat \<Rightarrow> real) \<Rightarrow> (nat \<Rightarrow> int) \<Rightarrow> (nat \<Rightarrow> int list) \<Rightarrow> nat \<Rightarrow> sampler \<Rightarrow> sampler option" where
  "updateAnnealing_body us lens syms i s = do {
     t \<leftarrow> track s;
     ri \<leftarrow> item (recInds t) i;
     let rate = real (acceptedRecently (iter s) ri) / 100;
     ar \<leftarrow> (if i < length (acceptanceRate s) then Some ((acceptanceRate s)[i := rate]) else None);
     tm \<leftarrow> item (temperature s) i;
     let tm' = (if rate < target_acceptance_rate (config_main s) then tm * (1 + us i)
                else tm * (1 - us i));
     let s1 = s\<lparr>acceptanceRate := ar, temperature := (temperature s)[i := tm']\<rparr>;
     r \<leftarrow> item (resetInd s1) i;
     if int (iter s1) - int r > 1000 then do {
       oi \<leftarrow> item (optimalInds t) i;
       lo \<leftarrow> last_item oi;
       if int (iter s1) - int lo > 1000 then do {
         s2 \<leftarrow> resetConfig i (lens i) (syms i) (s1\<lparr>resetInd := (resetInd s1)[i := iter s1]\<rparr>);
         Some (s2\<lparr>temperature := (temperature s2)[i := temp0 s2]\<rparr>)
       } else Some s1
     } else Some s1
   }"

definition updateAnnealing ::
  "(nat \<Rightarrow> real) \<Rightarrow> (nat \<Rightarrow> int) \<Rightarrow> (nat \<Rightarrow> int list) \<Rightarrow> sampler \<Rightarrow> sampler option" where
  "updateAnnealing us lens syms s = for_each (updateAnnealing_body us lens syms) [0..<nruns s] s"

subsection \<open>Run loops\<close>

definition initConvergenceStats :: "sampler \<Rightarrow> sampler" where
  "initConvergenceStats s =
     s\<lparr>resetInd := replicate (nruns s) 0, acceptanceRate := replicate (nruns s) 0\<rparr>"

text \<open>\<open>resampleRandints\<close> replaces the five buffers by a fresh batch \<open>b\<close>.
  \<open>np.random.randint(low, high)\<close> raises ValueError when \<open>low >= high\<close>: here for
  \<open>randint(1, dict_size + 1)\<close> and \<open>randint(0, chainLength)\<close>.\<close>

definition resampleRandints :: "draws \<Rightarrow> sampler \<Rightarrow> sampler option" where
  "resampleRandints b s =
     (if dict_size (dataset (config_main s)) + 1 \<le> 1 \<or> chainLength s \<le> 0 then None
      else Some (s\<lparr>buffers := b\<rparr>))"

text \<open>
  One pass of the loop of \<open>postSampleAnnealing\<close>, at iteration \<open>it\<close>; \<open>b\<close> is the
  batch a resampling at this iteration would draw.
\<close>

definition postSampleAnnealing_body ::
  "(int list list \<Rightarrow> int list list \<Rightarrow> scoring) \<Rightarrow> (nat \<Rightarrow> draws) \<Rightarrow> nat \<Rightarrow> sampler \<Rightarrow> sampler option" where
  "postSampleAnnealing_body gs bs it s = do {
     s1 \<leftarrow> iterate gs (s\<lparr>iter := it\<rparr>);
     let s2 = s1\<lparr>temperature := map (\<lambda>tmp. tmp * (99 / 100)) (temperature s1)\<rparr>;
     if it mod randintsResampleAt s2 = 0 then resampleRandints (bs (Suc it)) s2 else Some s2
   }"

text \<open>
  \<open>postSampleAnnealing\<close>, up to the end of its loop. \<open>initConfigs\<close> is an array
  object of the caller, new to the store; \<open>bs 0\<close> is the batch of the first
  \<open>resampleRandints\<close>. The model returns the final sampler; the dictionary the
  method returns is \<open>annealedOutputs\<close> of it.
\<close>

definition postSampleAnnealing ::
  "(int list list \<Rightarrow> int list list \<Rightarrow> scoring) \<Rightarrow> (nat \<Rightarrow> draws) \<Rightarrow> int list list \<Rightarrow> sampler
     \<Rightarrow> sampler option" where
  "postSampleAnnealing gs bs initConfigs s =
     (let s0 = s\<lparr>config_main := (config_main s)\<lparr>STUN := 0\<rparr>,
                 nruns := length initConfigs,
                 temp0 := 1 / 100,
                 temperature := replicate (length initConfigs) (1 / 100),
                 arrays := (arrays s)(fresh s := initConfigs),
                 config := fresh s,
                 fresh := Suc (fresh s)\<rparr>
      in do {
        s1 \<leftarrow> resampleRandints (bs 0) (initConvergenceStats s0);
        for_each (postSampleAnnealing_body gs bs) [0..<post_annealing_time (config_main s1)] s1
      })"

definition annealedOutputs ::
  "(int list list \<Rightarrow> int list list \<Rightarrow> scoring) \<Rightarrow> sampler
     \<Rightarrow> int list list \<times> real list \<times> real list \<times> real list" where
  "annealedOutputs gs s =
     (let evals = gs (arrays s (config s)) (arrays s (config s))
      in (arrays s (config s), fst (score evals), fst (energy evals), fst (variance evals)))"

text \<open>
  \<open>converge\<close>. The argument \<open>nIters\<close> is \<open>None\<close> (as \<open>sample\<close> passes it by default),
  the default \<open>False\<close> of \<open>converge\<close> itself (\<open>range(False)\<close> is empty), or a count.
  \<open>us it\<close>, \<open>lens it\<close> and \<open>syms it\<close> are the draws of the annealing controller at
  iteration \<open>it\<close>.
\<close>

datatype niters = NoneArg | FalseArg | Count nat

definition run_iters :: "niters \<Rightarrow> sampler \<Rightarrow> nat" where
  "run_iters n s =
     (case n of NoneArg \<Rightarrow> sampling_time (config_main s) | FalseArg \<Rightarrow> 0 | Count k \<Rightarrow> k)"

definition converge_body ::
  "(int list list \<Rightarrow> int list list \<Rightarrow> scoring) \<Rightarrow> (nat \<Rightarrow> draws) \<Rightarrow> (nat \<Rightarrow> nat \<Rightarrow> real) \<Rightarrow>
   (nat \<Rightarrow> nat \<Rightarrow> int) \<Rightarrow> (nat \<Rightarrow> nat \<Rightarrow> int list) \<Rightarrow> nat \<Rightarrow> sampler \<Rightarrow> sampler option" where
  "converge_body gs bs us lens syms it s = do {
     s1 \<leftarrow> iterate gs (s\<lparr>iter := it\<rparr>);
     s2 \<leftarrow> (if deltaIter s1 = 0 then None
            else if it mod deltaIter s1 = 0 \<and> 0 < it
              then updateAnnealing (us it) (lens it) (syms it) s1
              else Some s1);
     if it mod randintsResampleAt s2 = 0 then resampleRandints (bs (Suc it)) s2 else Some s2
   }"

definition converge ::
  "(int list list \<Rightarrow> int list list \<Rightarrow> scoring) \<Rightarrow> (nat \<Rightarrow> draws) \<Rightarrow> (nat \<Rightarrow> nat \<Rightarrow> real) \<Rightarrow>
   (nat \<Rightarrow> nat \<Rightarrow> int) \<Rightarrow> (nat \<Rightarrow> nat \<Rightarrow> int list) \<Rightarrow> niters \<Rightarrow> sampler \<Rightarrow> sampler option" where
  "converge gs bs us lens syms n s =
     do {
       s1 \<leftarrow> resampleRandints (bs 0) (initConvergenceStats s);
       for_each (converge_body gs bs us lens syms) [0..<run_iters n s1] s1
     }"

subsection \<open>Construction\<close>

text \<open>\<open>getInitConfig\<close>: one \<open>makeAConfig\<close> per trajectory, with draws \<open>lens i\<close>, \<open>syms i\<close>.\<close>

definition getInitConfig ::
  "dataset_config \<Rightarrow> nat \<Rightarrow> (nat \<Rightarrow> int) \<Rightarrow> (nat \<Rightarrow> int list) \<Rightarrow> int list list option" where
  "getInitConfig d n lens syms = those (map (\<lambda>i. makeAConfig d (lens i) (syms i)) [0..<n])"

definition initRecs :: "nat \<Rightarrow> recs" where
  "initRecs n =
     \<lparr>temprec = replicate n [], accrec = replicate n [], stunrec = replicate n [],
      scorerec = replicate n [], enrec = replicate n [], varrec = replicate n []\<rparr>"

definition no_draws :: draws where
  "no_draws =
     \<lparr>spinRandints = (\<lambda>i k. 0), pickSpinRandint = (\<lambda>i k. 0), alphaRandoms = (\<lambda>i k. 0),
      changeLengthRandints = (\<lambda>i k. 0), seqExtensionRandints = (\<lambda>i k. 0)\<rparr>"

text \<open>
  \<open>Sampler.__init__\<close>. The ensemble is the first array of the store, at address 0.
  Attributes that Python creates later (\<open>propConfig\<close>, the buffers, \<open>iter\<close>, the
  scores, the convergence statistics) are fields of the record from the start and
  hold placeholders until the run loops assign them.
\<close>

definition Sampler_init ::
  "main_config \<Rightarrow> real list \<Rightarrow> (nat \<Rightarrow> int) \<Rightarrow> (nat \<Rightarrow> int list) \<Rightarrow> sampler option" where
  "Sampler_init cm g lens syms = do {
     rows \<leftarrow> getInitConfig (dataset cm) (length g) lens syms;
     Some \<lparr>config_main = cm\<lparr>STUN := 1, target_acceptance_rate := 234 / 1000\<rparr>,
           chainLength = max_length (dataset cm),
           deltaIter = 10,
           randintsResampleAt = 10000,
           recordMargin = 2 / 10,
           gammas = g,
           nruns = length g,
           temp0 = 1 / 10,
           temperature = replicate (length g) (1 / 10),
           arrays = (\<lambda>a. [])(0 := rows),
           fresh = 1,
           config = 0,
           propConfig = 0,
           buffers = no_draws,
           resetInd = [],
           acceptanceRate = [],
           iter = 0,
           ind = 0,
           scores = \<lparr>score = ([], []), energy = ([], []), variance = ([], [])\<rparr>,
           F = Fplaceholder,
           DE = [],
           acceptanceRatio = [],
           track = None,
           debugrecs = (if debug cm then Some (initRecs (length g)) else None)\<rparr>
   }"

subsection \<open>The padding invariant of the data model\<close>

text \<open>
  The active length of a row is the length of its nonzero prefix. A row is well
  padded when that length lies between \<open>min_length\<close> and \<open>max_length\<close> and every
  position beyond it is zero.
\<close>

definition active_length :: "int list \<Rightarrow> nat" where
  "active_length row = length (takeWhile (\<lambda>x. x \<noteq> 0) row)"

definition well_padded :: "dataset_config \<Rightarrow> int list \<Rightarrow> bool" where
  "well_padded d row \<longleftrightarrow>
     min_length d \<le> int (active_length row) \<and> int (active_length row) \<le> max_length d \<and>
     list_all (\<lambda>x. x = 0) (drop (active_length row) row)"

subsection \<open>Concrete configurations and draws used in the examples\<close>

definition const_draws :: "32 word \<Rightarrow> 8 word \<Rightarrow> real \<Rightarrow> 8 word \<Rightarrow> 8 word \<Rightarrow> draws" where
  "const_draws pick spin alpha change ext =
     \<lparr>spinRandints = (\<lambda>i k. spin), pickSpinRandint = (\<lambda>i k. pick),
      alphaRandoms = (\<lambda>i k. alpha), changeLengthRandints = (\<lambda>i k. change),
      seqExtensionRandints = (\<lambda>i k. ext)\<rparr>"

definition var_config :: main_config where
  "var_config =
     \<lparr>dataset = \<lparr>min_length = 2, max_length = 4, dict_size = 4, variable_length = True\<rparr>,
      STUN = 1, target_acceptance_rate = 234 / 1000, debug = False,
      sampling_time = 20, post_annealing_time = 2\<rparr>"

text \<open>A scoring collaborator that gives every sequence the score, energy and
  variance 0.\<close>

definition zero_scores :: "int list list \<Rightarrow> int list list \<Rightarrow> scoring" where
  "zero_scores prop cur =
     \<lparr>score = (map (\<lambda>r. 0) prop, map (\<lambda>r. 0) cur),
      energy = (map (\<lambda>r. 0) prop, map (\<lambda>r. 0) cur),
      variance = (map (\<lambda>r. 0) prop, map (\<lambda>r. 0) cur)\<rparr>"

subsection \<open>The state of one trajectory\<close>

text \<open>What the optimum tracker holds for trajectory \<open>i\<close>: its recorded optima
  (scores, energies, variances, samples), the iterations of its new bests, its
  acceptance iterations, its new-best history and its best score \<open>E0[i]\<close>.\<close>

definition traj_record ::
  "tracker \<Rightarrow> nat \<Rightarrow>
   real list \<times> real list \<times> real list \<times> rowref list \<times> nat list \<times> nat list \<times> rowref list \<times>
   real list \<times> real" where
  "traj_record t i =
     (optima t ! i, enAtOptima t ! i, varAtOptima t ! i, optimalSamples t ! i,
      optimalInds t ! i, recInds t ! i, newOptima t ! i, newOptimaEn t ! i, E0 t ! i)"

subsection \<open>Projections of the state used in the frame properties\<close>

text \<open>The global dedup pool, empty before \<open>initOptima\<close>.\<close>

definition pool_of :: "sampler \<Rightarrow> rowref list" where
  "pool_of s = (case track s of None \<Rightarrow> [] | Some t \<Rightarrow> allOptimalConfigs t)"

text \<open>Everything of the state but the store, the tracker and the debug records,
  with the proposed ensemble.\<close>

definition kept :: "sampler \<Rightarrow> sampler \<times> int list list" where
  "kept s = (s\<lparr>arrays := (\<lambda>a. []), track := None, debugrecs := None\<rparr>, arrays s (propConfig s))"

text \<open>What concerns trajectory \<open>i\<close>: its current row, the arrays other than the
  ensemble, and its part of the tracker.\<close>

definition focus :: "nat \<Rightarrow> sampler \<Rightarrow> _" where
  "focus i s =
     (kept s,
      arrays s (config s) ! i,
      length (arrays s (config s)),
      (arrays s)(config s := []),
      map_option (\<lambda>t. (traj_record t i, length (recInds t))) (track s))"

text \<open>\<open>proposed s x\<close>: \<open>x\<close> is \<open>s\<close> with a new array for the proposals, every
  older array untouched.\<close>

definition proposed :: "sampler \<Rightarrow> sampler \<Rightarrow> bool" where
  "proposed s x \<longleftrightarrow>
     x = s\<lparr>arrays := arrays x, propConfig := fresh s, fresh := Suc (fresh s)\<rparr> \<and>
     (\<forall>a. a \<noteq> fresh s \<longrightarrow> arrays x a = arrays s a)"

subsection \<open>The stagnation test of the annealing controller\<close>

text \<open>The two nested conditions of \<open>updateAnnealing\<close> for trajectory \<open>i\<close>: more than
  1000 iterations since \<open>resetInd[i]\<close> and since \<open>optimalInds[i][-1]\<close>, the last
  iteration at which \<open>saveOptima\<close> found a new best of \<open>i\<close> (0 from \<open>initOptima\<close>).\<close>

definition stagnant :: "sampler \<Rightarrow> tracker \<Rightarrow> nat \<Rightarrow> bool" where
  "stagnant s t i \<longleftrightarrow>
     1000 < int (iter s) - int (resetInd s ! i) \<and>
     1000 < int (iter s) - int (last (optimalInds t ! i))"

text \<open>The temperature of \<open>i\<close> after the modulation by the draw \<open>u\<close>, for a rolling
  acceptance rate \<open>rate\<close>.\<close>

definition modulated :: "sampler \<Rightarrow> real \<Rightarrow> real \<Rightarrow> real \<Rightarrow> real" where
  "modulated s rate tmp u =
     (if rate < target_acceptance_rate (config_main s) then tmp * (1 + u) else tmp * (1 - u))"

text \<open>What the annealing steps of the other trajectories leave alone.\<close>

definition akept :: "sampler \<Rightarrow> sampler" where
  "akept s = s\<lparr>arrays := (\<lambda>a. []), temperature := [], acceptanceRate := [], resetInd := []\<rparr>"

definition afocus :: "nat \<Rightarrow> sampler \<Rightarrow> _" where
  "afocus i s =
     (akept s,
      (temperature s ! i, length (temperature s)),
      (acceptanceRate s ! i, length (acceptanceRate s)),
      (resetInd s ! i, length (resetInd s)),
      (arrays s (config s) ! i, length (arrays s (config s))),
      (arrays s)(config s := []))"

subsection \<open>A fixed-length sampler with two trajectories\<close>

definition fixed_config :: main_config where
  "fixed_config =
     \<lparr>dataset = \<lparr>min_length = 2, max_length = 2, dict_size = 4, variable_length = False\<rparr>,
      STUN = 1, target_acceptance_rate = 234 / 1000, debug = False,
      sampling_time = 20, post_annealing_time = 2\<rparr>"

definition two_rows :: "nat \<Rightarrow> int list" where
  "two_rows i = (if i = 0 then [1, 1] else [2, 2])"

text \<open>The sampler after \<open>__init__\<close>, \<open>initConvergenceStats\<close> and a
  \<open>resampleRandints\<close> that drew the batch \<open>b\<close>; then after one \<open>iterate\<close> with
  all scores 0.\<close>

definition started :: "draws \<Rightarrow> sampler" where
  "started b =
     the (resampleRandints b
            (initConvergenceStats (the (Sampler_init fixed_config [1, 1] (\<lambda>i. 2) two_rows))))"

definition stepped :: "draws \<Rightarrow> sampler" where
  "stepped b = the (iterate zero_scores (started b))"


text \<open>A scoring collaborator with one good sequence: \<open>[2, 1]\<close> scores 1, every
  other sequence 5.\<close>

definition pair_score :: "int list \<Rightarrow> real" where
  "pair_score row = (if row = [2, 1] then 1 else 5)"

definition pair_scores :: "int list list \<Rightarrow> int list list \<Rightarrow> scoring" where
  "pair_scores prop cur =
     \<lparr>score = (map pair_score prop, map pair_score cur),
      energy = (map pair_score prop, map pair_score cur),
      variance = (map (\<lambda>r. 0) prop, map (\<lambda>r. 0) cur)\<rparr>"

text \<open>Two batches of draws: in the first, both trajectories mutate position 0 to
  symbol 2; in the second, trajectory 0 does the same and trajectory 1 mutates
  position 1 to symbol 1. All acceptance draws are 0, no length change.\<close>

definition two_batches :: "nat \<Rightarrow> draws" where
  "two_batches b =
     (if b = 0 then const_draws 0 2 0 0 1
      else \<lparr>spinRandints = (\<lambda>i k. if i = 0 then 2 else 1),
            pickSpinRandint = (\<lambda>i k. if i = 0 then 0 else 1),
            alphaRandoms = (\<lambda>i k. 0), changeLengthRandints = (\<lambda>i k. 0),
            seqExtensionRandints = (\<lambda>i k. 1)\<rparr>)"

text \<open>The sampler right after \<open>__init__\<close>, with the ensemble \<open>[[1, 1], [2, 2]]\<close>.\<close>

definition fresh_sampler :: sampler where
  "fresh_sampler = the (Sampler_init fixed_config [1, 1] (\<lambda>i. 2) two_rows)"

text \<open>
  A sampler whose pool seeds no longer alias the ensemble: one \<open>iterate\<close> of a
  first run (\<open>initOptima\<close> takes views of the ensemble at address 0), then
  \<open>postSampleAnnealing\<close> on \<open>[[1, 1], [2, 2]]\<close>, which rebinds \<open>self.config\<close> to
  another array, then a resampling of the draws.
\<close>

definition stale_sampler :: sampler where
  "stale_sampler =
     the (resampleRandints (const_draws 0 3 0 0 1)
       (the (postSampleAnnealing pair_scores (\<lambda>k. const_draws 0 1 0 0 1) [[1, 1], [2, 2]]
              (the (iterate pair_scores (started (const_draws 0 2 0 0 1)))))))"

section \<open>Properties\<close>

subsection \<open>Evaluation on concrete inputs\<close>

lemma replicate_numeral_eval: "replicate (numeral v) x = x # replicate (numeral v - 1) x"
  by (simp add: numeral_eq_Suc)

lemma list_update_numeral_eval: "(x # xs)[numeral v := y] = x # xs[numeral v - 1 := y]"
  by (simp add: numeral_eq_Suc)

lemmas run_defs =
  Sampler_init_def getInitConfig_def makeAConfig_def var_config_def
  propConfigs_def propConfigs_body_def copy_config_def resampleRandints_def const_draws_def
  propose_row_def setitem_def count_nonzero_def item_def iterate_def zero_scores_def
  initOptima_def getDE_def computeSTUN_def bcast2_def acceptance_def np_div_def
  updateConfigs_def updateConfigs_body_def setrow_def append_at_def saveOptima_def
  seed_pool_def record_sample_def record_best_def
  pool_equals_def view_def well_padded_def active_length_def Let_def
  replicate_numeral_eval list_update_numeral_eval

subsection \<open>Proposal engine: the length change\<close>

text \<open>Whatever the length-change draw other than \<open>+1\<close>, the proposal is the point
  mutation alone: the contraction branch is guarded by \<open>nnz == -1\<close>, and a count
  is never negative.\<close>

lemma propose_row_only_mutates:
  "change \<noteq> 1 \<Longrightarrow>
   propose_row d row pick spin change ext = setitem row (uint pick) (uint spin)"
  by (cases "setitem row (uint pick) (uint spin)") (auto simp: propose_row_def Let_def)

lemma propose_row_extends:
  "variable_length d \<Longrightarrow> setitem row (uint pick) (uint spin) = Some row1 \<Longrightarrow>
   propose_row d row pick spin 1 ext =
     (if int (count_nonzero row1) < max_length d
      then setitem row1 (int (count_nonzero row1)) (uint ext) else Some row1)"
  by (simp add: propose_row_def Let_def)

text \<open>
  C3 (the code departs from the claim). Variable length is enabled with
  \<open>min_length = 2\<close> and \<open>max_length = 4\<close>; the one trajectory holds \<open>[1, 2, 3, 0]\<close>, of
  active length 3, above \<open>min_length\<close>. The draws of the iteration are: position 0,
  symbol 1, length-change direction \<open>-1\<close>. The claim has the last active slot
  zeroed, giving \<open>[1, 2, 0, 0]\<close>; \<open>propConfigs\<close> proposes \<open>[1, 2, 3, 0]\<close>.
\<close>

theorem propConfigs_minus_one_keeps_length:
  "do { s \<leftarrow> Sampler_init var_config [1] (\<lambda>i. 3) (\<lambda>i. [1, 2, 3]);
        s1 \<leftarrow> resampleRandints (const_draws 0 1 0 (- 1) 1) s;
        s' \<leftarrow> propConfigs 0 s1;
        Some (arrays s (config s), arrays s' (propConfig s')) }
   = Some ([[1, 2, 3, 0]], [[1, 2, 3, 0]])"
  by (simp add: run_defs)

subsection \<open>The padding invariant\<close>

text \<open>
  C4 (the code departs from the claim). Variable length, \<open>min_length = 2\<close>,
  \<open>max_length = 4\<close>. \<open>makeAConfig\<close> with length draw 2 gives the well padded row
  \<open>[1, 2, 0, 0]\<close>. One \<open>iterate\<close> with the draws position 3, symbol 1, no length
  change, acceptance draw 0 writes the symbol into the padding and accepts: the
  ensemble then holds \<open>[1, 2, 0, 1]\<close>, whose nonzero prefix has length 2 and whose
  position 3 is not zero.
\<close>

theorem iterate_breaks_padding:
  "do { s \<leftarrow> Sampler_init var_config [1] (\<lambda>i. 2) (\<lambda>i. [1, 2]);
        s1 \<leftarrow> resampleRandints (const_draws 3 1 0 0 1) s;
        s' \<leftarrow> iterate zero_scores s1;
        Some (arrays s (config s), arrays s' (config s')) }
   = Some ([[1, 2, 0, 0]], [[1, 2, 0, 1]]) \<and>
   well_padded (dataset var_config) [1, 2, 0, 0] \<and>
   \<not> well_padded (dataset var_config) [1, 2, 0, 1]"
  by (simp add: run_defs)

subsection \<open>Loops and frames\<close>


lemma item_Some_iff: "item xs i = Some x \<longleftrightarrow> i < length xs \<and> xs ! i = x"
  by (auto simp: item_def)

lemma append_at_Some_iff:
  "append_at xss i v = Some yss \<longleftrightarrow> i < length xss \<and> yss = xss[i := xss ! i @ [v]]"
  by (auto simp: append_at_def)

lemma setrow_Some_iff:
  "setrow A i row = Some B \<longleftrightarrow> i < length A \<and> length row = length (A ! i) \<and> B = A[i := row]"
  by (auto simp: setrow_def)

lemma for_each_inv:
  assumes "for_each body js s = Some s'" "P s"
    and "\<And>j s1 s2. j \<in> set js \<Longrightarrow> P s1 \<Longrightarrow> body j s1 = Some s2 \<Longrightarrow> P s2"
  shows "P s'"
  using assms
proof (induction js arbitrary: s)
  case Nil
  then show ?case by simp
next
  case (Cons j js)
  from Cons.prems(1) obtain s1 where b: "body j s = Some s1" and r: "for_each body js s1 = Some s'"
    by (auto simp: bind_eq_Some_conv)
  have p1: "P s1" using Cons.prems(3)[of j s s1] Cons.prems(2) b by simp
  show ?case
  proof (rule Cons.IH[OF r p1])
    fix ja t1 t2
    assume "ja \<in> set js" "P t1" "body ja t1 = Some t2"
    then show "P t2" using Cons.prems(3)[of ja t1 t2] by simp
  qed
qed

lemma for_each_frame:
  assumes "for_each body js s = Some s'"
    and "\<And>j s1 s2. j \<in> set js \<Longrightarrow> body j s1 = Some s2 \<Longrightarrow> Q s2 = Q s1"
  shows "Q s' = Q s"
  by (rule for_each_inv[OF assms(1), where P = "\<lambda>x. Q x = Q s"]) (auto dest: assms(2))

lemma for_each_focus:
  assumes "for_each body js s = Some s'" "distinct js" "i \<in> set js"
    and frame: "\<And>j s1 s2. j \<noteq> i \<Longrightarrow> body j s1 = Some s2 \<Longrightarrow> Q s2 = Q s1"
  shows "\<exists>s1 s2. body i s1 = Some s2 \<and> Q s1 = Q s \<and> Q s' = Q s2"
  using assms(1-3)
proof (induction js arbitrary: s)
  case Nil
  then show ?case by simp
next
  case (Cons j js)
  from Cons.prems(1) obtain s1 where b: "body j s = Some s1" and r: "for_each body js s1 = Some s'"
    by (auto simp: bind_eq_Some_conv)
  show ?case
  proof (cases "j = i")
    case True
    then have "i \<notin> set js" using Cons.prems(2) by simp
    then have "Q s' = Q s1"
      using for_each_frame[OF r, of Q] frame by metis
    then show ?thesis using b True by blast
  next
    case False
    then have "i \<in> set js" using Cons.prems(3) by simp
    moreover have "distinct js" using Cons.prems(2) by simp
    ultimately obtain u1 u2 where "body i u1 = Some u2" "Q u1 = Q s1" "Q s' = Q u2"
      using Cons.IH[OF r] by blast
    moreover have "Q s1 = Q s" using frame[OF False b] .
    ultimately show ?thesis by metis
  qed
qed

subsection \<open>saveOptima\<close>

lemma record_sample_frame:
  assumes "record_sample j s pool t = Some t'" "i \<noteq> j"
  shows "traj_record t' i = traj_record t i"
  using assms
  by (auto simp: record_sample_def bind_eq_Some_conv append_at_Some_iff traj_record_def)

lemma record_sample_recInds:
  assumes "record_sample j s pool t = Some t'"
  shows "recInds t' = recInds t"
  using assms
  by (auto simp: record_sample_def bind_eq_Some_conv)

lemma record_best_frame:
  assumes "record_best j s t = Some t'" "i \<noteq> j"
  shows "traj_record t' i = traj_record t i"
  using assms
  by (auto simp: record_best_def bind_eq_Some_conv append_at_Some_iff traj_record_def split: if_splits)

lemma record_best_recInds:
  assumes "record_best j s t = Some t'"
  shows "recInds t' = recInds t"
  using assms
  by (auto simp: record_best_def bind_eq_Some_conv split: if_splits)

lemma traj_record_pool [simp]:
  "traj_record (t\<lparr>allOptimalConfigs := p\<rparr>) i = traj_record t i"
  by (simp add: traj_record_def)

lemma saveOptima_SomeD:
  assumes "saveOptima j nb s = Some s'"
  obtains t prow rows equals t1 t2 where
    "track s = Some t" "item (arrays s (propConfig s)) j = Some prow"
    "those (map (view s) (seed_pool t)) = Some rows" "pool_equals prow rows = Some equals"
    "(if \<not> list_ex (\<lambda>c. c = length prow) equals \<or> nb
            then record_sample j s (seed_pool t) t
            else Some (t\<lparr>allOptimalConfigs := seed_pool t\<rparr>)) = Some t1"
    "(if nb then record_best j s t1 else Some t1) = Some t2"
    "s' = s\<lparr>track := Some t2\<rparr>"
  using assms by (auto simp: saveOptima_def bind_eq_Some_conv Let_def)

lemma saveOptima_frame:
  assumes "saveOptima j nb s = Some s'"
  shows "\<exists>t t'. track s = Some t \<and> s' = s\<lparr>track := Some t'\<rparr> \<and> recInds t' = recInds t \<and>
     (\<forall>i. i \<noteq> j \<longrightarrow> traj_record t' i = traj_record t i)"
proof -
  from assms obtain t prow rows equals t1 t2 where
    t: "track s = Some t"
    and "item (arrays s (propConfig s)) j = Some prow"
    and t1: "(if \<not> list_ex (\<lambda>c. c = length prow) equals \<or> nb
            then record_sample j s (seed_pool t) t
            else Some (t\<lparr>allOptimalConfigs := seed_pool t\<rparr>)) = Some t1"
    and t2: "(if nb then record_best j s t1 else Some t1) = Some t2"
    and s': "s' = s\<lparr>track := Some t2\<rparr>"
    by (rule saveOptima_SomeD)
  have a1: "recInds t1 = recInds t" "\<forall>i. i \<noteq> j \<longrightarrow> traj_record t1 i = traj_record t i"
    using t1 by (auto simp: record_sample_recInds record_sample_frame split: if_splits)
  have a2: "recInds t2 = recInds t1" "\<forall>i. i \<noteq> j \<longrightarrow> traj_record t2 i = traj_record t1 i"
    using t2 by (auto simp: record_best_recInds record_best_frame split: if_splits)
  show ?thesis using t s' a1 a2 by auto
qed

subsection \<open>updateConfigs\<close>

lemma updateConfigs_body_reject:
  assumes "item (acceptanceRatio s) i = Some ratio" "\<not> lt_np (alphaRandoms (buffers s) i (ind s)) ratio"
  shows "updateConfigs_body i s = Some s"
  using assms by (simp add: updateConfigs_body_def)

lemma updateConfigs_body_accept:
  assumes "updateConfigs_body i s = Some s'"
    "item (acceptanceRatio s) i = Some ratio" "lt_np (alphaRandoms (buffers s) i (ind s)) ratio"
  shows "\<exists>prow t t'. item (arrays s (propConfig s)) i = Some prow \<and> i < length (arrays s (config s)) \<and>
      track s = Some t \<and> i < length (recInds t) \<and>
      s' = s\<lparr>arrays := (arrays s)(config s := (arrays s (config s))[i := prow]), track := Some t'\<rparr> \<and>
      recInds t' = (recInds t)[i := recInds t ! i @ [iter s]] \<and>
      (\<forall>k. k \<noteq> i \<longrightarrow> traj_record t' k = traj_record t k)"
proof -
  from assms obtain prow A t ri s0 e0 where
    p: "item (arrays s (propConfig s)) i = Some prow"
    and A: "setrow (arrays s (config s)) i prow = Some A"
    and t: "track s = Some t"
    and ri: "append_at (recInds t) i (iter s) = Some ri"
    and r: "(if s0 < e0 \<or> np_lt (np_div (e0 - s0) e0) (recordMargin s)
         then saveOptima i (s0 < e0) (s\<lparr>arrays := (arrays s)(config s := A), track := Some (t\<lparr>recInds := ri\<rparr>)\<rparr>)
         else Some (s\<lparr>arrays := (arrays s)(config s := A), track := Some (t\<lparr>recInds := ri\<rparr>)\<rparr>)) = Some s'"
    by (auto simp: updateConfigs_body_def bind_eq_Some_conv Let_def)
  let ?s1 = "s\<lparr>arrays := (arrays s)(config s := A), track := Some (t\<lparr>recInds := ri\<rparr>)\<rparr>"
  have A': "A = (arrays s (config s))[i := prow]" "i < length (arrays s (config s))"
    using A by (auto simp: setrow_Some_iff)
  have ri': "ri = (recInds t)[i := recInds t ! i @ [iter s]]" "i < length (recInds t)"
    using ri by (auto simp: append_at_Some_iff)
  have fr0: "\<forall>k. k \<noteq> i \<longrightarrow> traj_record (t\<lparr>recInds := ri\<rparr>) k = traj_record t k"
    using ri' by (auto simp: traj_record_def)
  show ?thesis
  proof (cases "s0 < e0 \<or> np_lt (np_div (e0 - s0) e0) (recordMargin s)")
    case True
    then have "saveOptima i (s0 < e0) ?s1 = Some s'" using r by simp
    from saveOptima_frame[OF this] obtain t' where
      "s' = ?s1\<lparr>track := Some t'\<rparr>" "recInds t' = ri"
      "\<forall>k. k \<noteq> i \<longrightarrow> traj_record t' k = traj_record (t\<lparr>recInds := ri\<rparr>) k"
      by auto
    then show ?thesis using p A' t ri' fr0 by auto
  next
    case False
    then have "s' = ?s1" using r by simp
    then show ?thesis using p A' t ri' fr0 by auto
  qed
qed


lemma updateConfigs_body_cases:
  assumes "updateConfigs_body i s = Some s'"
  obtains (reject) ratio where "item (acceptanceRatio s) i = Some ratio"
      "\<not> lt_np (alphaRandoms (buffers s) i (ind s)) ratio" "s' = s"
    | (accept) ratio where "item (acceptanceRatio s) i = Some ratio"
      "lt_np (alphaRandoms (buffers s) i (ind s)) ratio"
  using assms by (auto simp: updateConfigs_body_def bind_eq_Some_conv split: if_splits)

lemma focus_kept: "focus i s1 = focus i s \<Longrightarrow> kept s1 = kept s"
  by (simp add: focus_def)

lemma kept_fields:
  assumes "kept s1 = kept s"
  shows "acceptanceRatio s1 = acceptanceRatio s" "buffers s1 = buffers s" "ind s1 = ind s"
    "iter s1 = iter s" "config s1 = config s" "propConfig s1 = propConfig s"
    "arrays s1 (propConfig s) = arrays s (propConfig s)"
    "temperature s1 = temperature s" "DE s1 = DE s" "F s1 = F s" "nruns s1 = nruns s"
    "config_main s1 = config_main s" "temp0 s1 = temp0 s" "scores s1 = scores s"
    "randintsResampleAt s1 = randintsResampleAt s" "fresh s1 = fresh s"
    "resetInd s1 = resetInd s" "acceptanceRate s1 = acceptanceRate s"
    "deltaIter s1 = deltaIter s" "gammas s1 = gammas s" "recordMargin s1 = recordMargin s"
    "chainLength s1 = chainLength s"
proof -
  from assms have e: "s1\<lparr>arrays := (\<lambda>a. []), track := None, debugrecs := None\<rparr>
      = s\<lparr>arrays := (\<lambda>a. []), track := None, debugrecs := None\<rparr>"
    by (simp add: kept_def)
  show "acceptanceRatio s1 = acceptanceRatio s" using arg_cong[OF e, of acceptanceRatio] by simp
  show "buffers s1 = buffers s" using arg_cong[OF e, of buffers] by simp
  show "ind s1 = ind s" using arg_cong[OF e, of ind] by simp
  show "iter s1 = iter s" using arg_cong[OF e, of iter] by simp
  show "config s1 = config s" using arg_cong[OF e, of config] by simp
  show pc: "propConfig s1 = propConfig s" using arg_cong[OF e, of propConfig] by simp
  show "temperature s1 = temperature s" using arg_cong[OF e, of temperature] by simp
  show "DE s1 = DE s" using arg_cong[OF e, of DE] by simp
  show "F s1 = F s" using arg_cong[OF e, of F] by simp
  show "nruns s1 = nruns s" using arg_cong[OF e, of nruns] by simp
  show "config_main s1 = config_main s" using arg_cong[OF e, of config_main] by simp
  show "temp0 s1 = temp0 s" using arg_cong[OF e, of temp0] by simp
  show "scores s1 = scores s" using arg_cong[OF e, of scores] by simp
  show "randintsResampleAt s1 = randintsResampleAt s"
    using arg_cong[OF e, of randintsResampleAt] by simp
  show "fresh s1 = fresh s" using arg_cong[OF e, of fresh] by simp
  show "resetInd s1 = resetInd s" using arg_cong[OF e, of resetInd] by simp
  show "acceptanceRate s1 = acceptanceRate s" using arg_cong[OF e, of acceptanceRate] by simp
  show "deltaIter s1 = deltaIter s" using arg_cong[OF e, of deltaIter] by simp
  show "gammas s1 = gammas s" using arg_cong[OF e, of gammas] by simp
  show "recordMargin s1 = recordMargin s" using arg_cong[OF e, of recordMargin] by simp
  show "chainLength s1 = chainLength s" using arg_cong[OF e, of chainLength] by simp
  show "arrays s1 (propConfig s) = arrays s (propConfig s)"
    using assms pc by (simp add: kept_def)
qed

lemma updateConfigs_body_focus:
  assumes "updateConfigs_body j s = Some s'" "j \<noteq> i"
  shows "focus i s' = focus i s"
  using assms(1)
proof (cases rule: updateConfigs_body_cases)
  case (reject ratio)
  then show ?thesis by simp
next
  case (accept ratio)
  from updateConfigs_body_accept[OF assms(1) accept] obtain prow t t' where
    p: "item (arrays s (propConfig s)) j = Some prow" and
    l: "j < length (arrays s (config s))" and
    t: "track s = Some t" "j < length (recInds t)" and
    s': "s' = s\<lparr>arrays := (arrays s)(config s := (arrays s (config s))[j := prow]), track := Some t'\<rparr>" and
    r: "recInds t' = (recInds t)[j := recInds t ! j @ [iter s]]" and
    f: "\<forall>k. k \<noteq> j \<longrightarrow> traj_record t' k = traj_record t k"
    by blast
  have "prow = arrays s (propConfig s) ! j" using p by (simp add: item_Some_iff)
  then show ?thesis
    using s' t r f assms(2) by (auto simp: focus_def kept_def fun_eq_iff)
qed


lemma updateConfigs_loop_at:
  assumes "for_each updateConfigs_body [0..<n] s = Some s'" "i < n"
  shows "\<exists>s1 s2. updateConfigs_body i s1 = Some s2 \<and> focus i s1 = focus i s \<and>
           focus i s' = focus i s2"
  by (rule for_each_focus[OF assms(1)]) (use assms(2) in \<open>auto intro: updateConfigs_body_focus\<close>)

lemma recordStats_body_frame:
  "recordStats_body j s = Some s' \<Longrightarrow> \<exists>r. s' = s\<lparr>debugrecs := r\<rparr>"
  by (auto simp: recordStats_body_def bind_eq_Some_conv)

lemma recordStats_frame:
  assumes "recordStats s = Some s'"
  shows "\<exists>r. s' = s\<lparr>debugrecs := r\<rparr>"
proof (rule for_each_inv[OF assms[unfolded recordStats_def], where P = "\<lambda>x. \<exists>r. x = s\<lparr>debugrecs := r\<rparr>"])
  show "\<exists>r. s = s\<lparr>debugrecs := r\<rparr>" by (rule exI[of _ "debugrecs s"]) simp
next
  fix j s1 s2
  assume "\<exists>r. s1 = s\<lparr>debugrecs := r\<rparr>" "recordStats_body j s1 = Some s2"
  then show "\<exists>r. s2 = s\<lparr>debugrecs := r\<rparr>"
    by (auto dest!: recordStats_body_frame)
qed

lemma kept_debugrecs [simp]: "kept (s\<lparr>debugrecs := r\<rparr>) = kept s"
  by (simp add: kept_def)

lemma focus_debugrecs [simp]: "focus i (s\<lparr>debugrecs := r\<rparr>) = focus i s"
  by (simp add: focus_def)

lemma updateConfigs_at:
  assumes "updateConfigs s = Some s'" "i < nruns s"
  shows "\<exists>s1 s2. updateConfigs_body i s1 = Some s2 \<and> focus i s1 = focus i s \<and>
           focus i s' = focus i s2"
proof -
  from assms(1) obtain u where u: "for_each updateConfigs_body [0..<nruns s] s = Some u"
    and r: "(if debug (config_main u) then recordStats u else Some u) = Some s'"
    by (auto simp: updateConfigs_def bind_eq_Some_conv)
  have "focus i s' = focus i u"
    using r by (auto split: if_splits dest!: recordStats_frame)
  then show ?thesis using updateConfigs_loop_at[OF u assms(2)] by simp
qed

lemma focus_fields:
  assumes "focus i s1 = focus i s"
  shows "arrays s1 (config s) ! i = arrays s (config s) ! i"
    "length (arrays s1 (config s)) = length (arrays s (config s))"
    "a \<noteq> config s \<Longrightarrow> arrays s1 a = arrays s a"
    "map_option (\<lambda>t. traj_record t i) (track s1) = map_option (\<lambda>t. traj_record t i) (track s)"
proof -
  have c: "config s1 = config s" using kept_fields(5)[OF focus_kept[OF assms]] .
  show "arrays s1 (config s) ! i = arrays s (config s) ! i"
    using assms c by (simp add: focus_def)
  show "length (arrays s1 (config s)) = length (arrays s (config s))"
    using assms c by (simp add: focus_def)
  show "a \<noteq> config s \<Longrightarrow> arrays s1 a = arrays s a"
  proof -
    assume a: "a \<noteq> config s"
    from assms c have "(arrays s1)(config s := []) = (arrays s)(config s := [])"
      by (simp add: focus_def)
    from fun_cong[OF this, of a] a show ?thesis by simp
  qed
  show "map_option (\<lambda>t. traj_record t i) (track s1) = map_option (\<lambda>t. traj_record t i) (track s)"
    using assms by (cases "track s1"; cases "track s") (auto simp: focus_def)
qed

lemma record_sample_pool:
  "record_sample j s pool t = Some t' \<Longrightarrow> allOptimalConfigs t' = pool @ [(propConfig s, j)]"
  by (auto simp: record_sample_def bind_eq_Some_conv)

lemma record_best_pool:
  "record_best j s t = Some t' \<Longrightarrow> allOptimalConfigs t' = allOptimalConfigs t"
  by (auto simp: record_best_def bind_eq_Some_conv split: if_splits)

lemma seed_pool_ext: "\<exists>ext. seed_pool t = allOptimalConfigs t @ ext"
  by (simp add: seed_pool_def)

lemma saveOptima_pool:
  assumes "saveOptima j nb s = Some s'"
  shows "\<exists>ext. pool_of s' = pool_of s @ ext"
proof -
  from assms obtain t prow rows equals t1 t2 where
    t: "track s = Some t"
    and "item (arrays s (propConfig s)) j = Some prow"
    and t1: "(if \<not> list_ex (\<lambda>c. c = length prow) equals \<or> nb
            then record_sample j s (seed_pool t) t
            else Some (t\<lparr>allOptimalConfigs := seed_pool t\<rparr>)) = Some t1"
    and t2: "(if nb then record_best j s t1 else Some t1) = Some t2"
    and s': "s' = s\<lparr>track := Some t2\<rparr>"
    by (rule saveOptima_SomeD)
  have "\<exists>ext. allOptimalConfigs t1 = seed_pool t @ ext"
    using t1 by (auto simp: record_sample_pool split: if_splits)
  moreover have "allOptimalConfigs t2 = allOptimalConfigs t1"
    using t2 by (auto simp: record_best_pool split: if_splits)
  ultimately show ?thesis
    using seed_pool_ext[of t] t s' by (auto simp: pool_of_def)
qed

lemma updateConfigs_body_pool:
  assumes "updateConfigs_body i s = Some s'"
  shows "\<exists>ext. pool_of s' = pool_of s @ ext"
  using assms
proof (cases rule: updateConfigs_body_cases)
  case (reject ratio)
  then show ?thesis by simp
next
  case (accept ratio)
  from assms accept obtain prow A t ri s0 e0 where
    p: "item (arrays s (propConfig s)) i = Some prow"
    and t: "track s = Some t"
    and r: "(if s0 < e0 \<or> np_lt (np_div (e0 - s0) e0) (recordMargin s)
         then saveOptima i (s0 < e0) (s\<lparr>arrays := (arrays s)(config s := A), track := Some (t\<lparr>recInds := ri\<rparr>)\<rparr>)
         else Some (s\<lparr>arrays := (arrays s)(config s := A), track := Some (t\<lparr>recInds := ri\<rparr>)\<rparr>)) = Some s'"
    by (auto simp: updateConfigs_body_def bind_eq_Some_conv Let_def)
  let ?s1 = "s\<lparr>arrays := (arrays s)(config s := A), track := Some (t\<lparr>recInds := ri\<rparr>)\<rparr>"
  have "pool_of ?s1 = pool_of s" using t by (simp add: pool_of_def)
  moreover have "\<exists>ext. pool_of s' = pool_of ?s1 @ ext"
    using r by (auto split: if_splits dest: saveOptima_pool)
  ultimately show ?thesis by simp
qed

lemma pool_of_debugrecs [simp]: "pool_of (s\<lparr>debugrecs := r\<rparr>) = pool_of s"
  by (simp add: pool_of_def)

lemma updateConfigs_pool:
  assumes "updateConfigs s = Some s'"
  shows "\<exists>ext. pool_of s' = pool_of s @ ext"
proof -
  from assms obtain u where u: "for_each updateConfigs_body [0..<nruns s] s = Some u"
    and r: "(if debug (config_main u) then recordStats u else Some u) = Some s'"
    by (auto simp: updateConfigs_def bind_eq_Some_conv)
  have "\<exists>ext. pool_of u = pool_of s @ ext"
  proof (rule for_each_inv[OF u, where P = "\<lambda>x. \<exists>ext. pool_of x = pool_of s @ ext"])
    show "\<exists>ext. pool_of s = pool_of s @ ext" by simp
  next
    fix j s1 s2
    assume "\<exists>ext. pool_of s1 = pool_of s @ ext" "updateConfigs_body j s1 = Some s2"
    then show "\<exists>ext. pool_of s2 = pool_of s @ ext"
      using updateConfigs_body_pool[of j s1 s2] by auto
  qed
  moreover have "pool_of s' = pool_of u"
    using r by (auto split: if_splits dest!: recordStats_frame)
  ultimately show ?thesis by simp
qed

lemma updateConfigs_body_kept:
  assumes "updateConfigs_body j s = Some s'"
  shows "kept s' = kept s"
  using assms
proof (cases rule: updateConfigs_body_cases)
  case (reject ratio)
  then show ?thesis by simp
next
  case (accept ratio)
  from updateConfigs_body_accept[OF assms accept] obtain prow t t' where
    p: "item (arrays s (propConfig s)) j = Some prow" and
    s': "s' = s\<lparr>arrays := (arrays s)(config s := (arrays s (config s))[j := prow]), track := Some t'\<rparr>"
    by blast
  have "prow = arrays s (propConfig s) ! j" using p by (simp add: item_Some_iff)
  then show ?thesis using s' by (auto simp: kept_def)
qed

lemma updateConfigs_kept:
  assumes "updateConfigs s = Some s'"
  shows "kept s' = kept s"
proof -
  from assms obtain u where u: "for_each updateConfigs_body [0..<nruns s] s = Some u"
    and r: "(if debug (config_main u) then recordStats u else Some u) = Some s'"
    by (auto simp: updateConfigs_def bind_eq_Some_conv)
  have "kept u = kept s"
    by (rule for_each_frame[OF u]) (rule updateConfigs_body_kept)
  moreover have "kept s' = kept u"
    using r by (auto split: if_splits dest!: recordStats_frame)
  ultimately show ?thesis by simp
qed

lemma updateConfigs_reject_unchanged:
  assumes "updateConfigs s = Some s'" "i < nruns s"
    and "item (acceptanceRatio s) i = Some ratio"
    and "\<not> lt_np (alphaRandoms (buffers s) i (ind s)) ratio"
  shows "updateConfigs_body i s = Some s \<and>
         view s' (config s', i) = view s (config s, i) \<and>
         map_option (\<lambda>t. traj_record t i) (track s') = map_option (\<lambda>t. traj_record t i) (track s) \<and>
         (\<forall>a. a \<noteq> config s \<longrightarrow> arrays s' a = arrays s a) \<and>
         (\<exists>ext. pool_of s' = pool_of s @ ext)"
proof -
  from updateConfigs_at[OF assms(1,2)] obtain s1 s2 where
    b: "updateConfigs_body i s1 = Some s2" and f1: "focus i s1 = focus i s"
    and f2: "focus i s' = focus i s2" by blast
  have "item (acceptanceRatio s1) i = Some ratio"
       "\<not> lt_np (alphaRandoms (buffers s1) i (ind s1)) ratio"
    using assms(3,4) kept_fields(1-3)[OF focus_kept[OF f1]] by simp_all
  from updateConfigs_body_reject[OF this] b have "s2 = s1" by simp
  then have f: "focus i s' = focus i s" using f1 f2 by simp
  have "view s' (config s', i) = view s (config s, i)"
    using kept_fields(5)[OF focus_kept[OF f]] focus_fields(1,2)[OF f]
    by (simp add: view_def item_def)
  then show ?thesis
    using updateConfigs_body_reject[OF assms(3,4)] focus_fields(3,4)[OF f]
      updateConfigs_pool[OF assms(1)] by simp
qed

lemma updateConfigs_accept:
  assumes "updateConfigs s = Some s'" "i < nruns s"
    and "item (acceptanceRatio s) i = Some ratio"
    and "lt_np (alphaRandoms (buffers s) i (ind s)) ratio"
  shows "\<exists>prow t t'. view s (propConfig s, i) = Some prow \<and> view s' (config s', i) = Some prow \<and>
           track s = Some t \<and> track s' = Some t' \<and>
           recInds t' ! i = recInds t ! i @ [iter s]"
proof -
  from updateConfigs_at[OF assms(1,2)] obtain s1 s2 where
    b: "updateConfigs_body i s1 = Some s2" and f1: "focus i s1 = focus i s"
    and f2: "focus i s' = focus i s2" by blast
  note k1 = kept_fields[OF focus_kept[OF f1]]
  note e1 = focus_fields[OF f1]
  have "item (acceptanceRatio s1) i = Some ratio"
       "lt_np (alphaRandoms (buffers s1) i (ind s1)) ratio"
    using assms(3,4) k1(1-3) by simp_all
  from updateConfigs_body_accept[OF b this] obtain prow t1 t2 where
    p: "item (arrays s1 (propConfig s1)) i = Some prow" and
    l: "i < length (arrays s1 (config s1))" and
    t: "track s1 = Some t1" "i < length (recInds t1)" and
    s2: "s2 = s1\<lparr>arrays := (arrays s1)(config s1 := (arrays s1 (config s1))[i := prow]), track := Some t2\<rparr>" and
    r: "recInds t2 = (recInds t1)[i := recInds t1 ! i @ [iter s1]]"
    by blast
  note k2 = kept_fields[OF focus_kept[OF f2]]
  note e2 = focus_fields[OF f2]
  have c2: "config s2 = config s" "track s2 = Some t2"
           "arrays s2 (config s2) ! i = prow" "length (arrays s2 (config s2)) = length (arrays s1 (config s1))"
    using s2 l k1(5) by simp_all
  have v: "view s (propConfig s, i) = Some prow"
    using p k1(6,7) by (simp add: view_def)
  have "config s' = config s" using k2(5) c2(1) by simp
  then have v': "view s' (config s', i) = Some prow"
    using e2(1,2) c2 l by (simp add: view_def item_def)
  obtain t where t0: "track s = Some t" "traj_record t i = traj_record t1 i"
    using e1(4) t(1) by (cases "track s") auto
  obtain t' where t': "track s' = Some t'" "traj_record t' i = traj_record t2 i"
    using e2(4) c2(2) by (cases "track s'") auto
  have "recInds t' ! i = recInds t2 ! i" using t'(2) by (simp add: traj_record_def)
  also have "\<dots> = recInds t1 ! i @ [iter s1]" using r t(2) by simp
  also have "recInds t1 ! i = recInds t ! i" using t0(2) by (simp add: traj_record_def)
  finally show ?thesis using v v' t0(1) t'(1) k1(4) by simp
qed

subsection \<open>propConfigs, initOptima, iterate\<close>

lemma propConfigs_body_frame:
  "propConfigs_body k j s = Some s' \<Longrightarrow>
     s' = s\<lparr>arrays := arrays s'\<rparr> \<and> (\<forall>a. a \<noteq> propConfig s \<longrightarrow> arrays s' a = arrays s a)"
  by (auto simp: propConfigs_body_def bind_eq_Some_conv)

lemma propConfigs_frame:
  assumes "propConfigs k s = Some s'"
  shows "proposed s s'"
proof (rule for_each_inv[OF assms[unfolded propConfigs_def], where P = "proposed s"])
  show "proposed s (copy_config s)"
    by (simp add: copy_config_def proposed_def)
next
  fix j s1 s2
  assume a: "proposed s s1" "propConfigs_body k j s1 = Some s2"
  from propConfigs_body_frame[OF a(2)] have
    b: "s2 = s1\<lparr>arrays := arrays s2\<rparr>" "\<forall>a. a \<noteq> propConfig s1 \<longrightarrow> arrays s2 a = arrays s1 a"
    by simp_all
  from a(1) have c: "s1 = s\<lparr>arrays := arrays s1, propConfig := fresh s, fresh := Suc (fresh s)\<rparr>"
    "\<forall>a. a \<noteq> fresh s \<longrightarrow> arrays s1 a = arrays s a"
    by (simp_all add: proposed_def)
  have p: "propConfig s1 = fresh s" by (subst c(1)) simp
  have "s2 = s\<lparr>arrays := arrays s2, propConfig := fresh s, fresh := Suc (fresh s)\<rparr>"
    by (subst b(1), subst c(1)) simp
  then show "proposed s s2"
    using b(2) c(2) p by (simp add: proposed_def)
qed

lemma initOptima_frame:
  assumes "initOptima sc s = Some s'"
  shows "\<exists>t. s' = s\<lparr>track := Some t\<rparr> \<and> recInds t = map (\<lambda>i. []) [0..<nruns s]"
  using assms by (auto simp: initOptima_def Let_def split: if_splits)

lemma iterate_SomeD:
  assumes "iterate gs s = Some s'"
  obtains s1 s3 f d ar where
    "randintsResampleAt s \<noteq> 0"
    "propConfigs (iter s mod randintsResampleAt s) (s\<lparr>ind := iter s mod randintsResampleAt s\<rparr>) = Some s1"
    "(case track s1 of
        None \<Rightarrow> initOptima (gs (arrays s1 (propConfig s1)) (arrays s1 (config s1)))
                 (s1\<lparr>scores := gs (arrays s1 (propConfig s1)) (arrays s1 (config s1))\<rparr>)
      | Some t \<Rightarrow> Some (s1\<lparr>scores := gs (arrays s1 (propConfig s1)) (arrays s1 (config s1))\<rparr>)) = Some s3"
    "getDE (gs (arrays s1 (propConfig s1)) (arrays s1 (config s1))) s3 = Some (f, d)"
    "bcast2 acceptance d (temperature s3) = Some ar"
    "updateConfigs (s3\<lparr>F := f, DE := d, acceptanceRatio := ar\<rparr>) = Some s'"
  using assms
  by (auto simp: iterate_def bind_eq_Some_conv Let_def split: if_splits)


lemma acceptance_pos:
  "0 < tmp \<Longrightarrow> acceptance d tmp = Fin (min 1 (exp (- d / tmp)))"
  by (simp add: acceptance_def np_div_def)

subsection \<open>Metropolis acceptance\<close>

text \<open>
  C1. One \<open>iterate\<close> that returns, for a trajectory \<open>i\<close> with positive temperature
  (no broadcasting between \<open>DE\<close> and the temperatures; the ensemble is an array
  older than the one the proposal allocates). The acceptance ratio stored for \<open>i\<close>
  is \<open>min(1, exp(-DE[i] / temperature[i]))\<close>, a number between 0 and 1. If the
  acceptance draw of \<open>i\<close> at this iteration's index is below the ratio, the current
  row of \<open>i\<close> is afterwards the whole proposed row of this iteration and the
  iteration is appended to the acceptance record of \<open>i\<close>; otherwise the current row
  and the tracker's part for \<open>i\<close> are as before.
\<close>

theorem iterate_metropolis:
  assumes "iterate gs s = Some s'" "i < nruns s"
    and "length (DE s') = length (temperature s)" "i < length (temperature s)"
    and "0 < temperature s ! i" "config s \<noteq> fresh s"
  shows "acceptanceRatio s' ! i = Fin (min 1 (exp (- (DE s' ! i) / (temperature s ! i)))) \<and>
         0 \<le> min 1 (exp (- (DE s' ! i) / (temperature s ! i))) \<and>
         min 1 (exp (- (DE s' ! i) / (temperature s ! i))) \<le> 1 \<and>
         (if alphaRandoms (buffers s) i (iter s mod randintsResampleAt s)
               < min 1 (exp (- (DE s' ! i) / (temperature s ! i)))
          then view s' (config s', i) = view s' (propConfig s', i) \<and>
               view s' (config s', i) \<noteq> None \<and>
               (\<exists>t'. track s' = Some t' \<and>
                  recInds t' ! i = (case track s of None \<Rightarrow> [] | Some t \<Rightarrow> recInds t ! i) @ [iter s])
          else view s' (config s', i) = view s (config s, i) \<and>
               (\<forall>t. track s = Some t \<longrightarrow>
                  map_option (\<lambda>t'. traj_record t' i) (track s') = Some (traj_record t i)))"
proof -
  let ?k = "iter s mod randintsResampleAt s"
  from assms(1) obtain s1 s3 f d ar where
    pc: "propConfigs ?k (s\<lparr>ind := ?k\<rparr>) = Some s1"
    and io: "(case track s1 of
        None \<Rightarrow> initOptima (gs (arrays s1 (propConfig s1)) (arrays s1 (config s1)))
                 (s1\<lparr>scores := gs (arrays s1 (propConfig s1)) (arrays s1 (config s1))\<rparr>)
      | Some t \<Rightarrow> Some (s1\<lparr>scores := gs (arrays s1 (propConfig s1)) (arrays s1 (config s1))\<rparr>)) = Some s3"
    and de: "getDE (gs (arrays s1 (propConfig s1)) (arrays s1 (config s1))) s3 = Some (f, d)"
    and bc: "bcast2 acceptance d (temperature s3) = Some ar"
    and uc: "updateConfigs (s3\<lparr>F := f, DE := d, acceptanceRatio := ar\<rparr>) = Some s'"
    by (rule iterate_SomeD)
  let ?sc = "gs (arrays s1 (propConfig s1)) (arrays s1 (config s1))"
  let ?u = "s3\<lparr>F := f, DE := d, acceptanceRatio := ar\<rparr>"
  from propConfigs_frame[OF pc] have
    s1: "s1 = s\<lparr>ind := ?k, arrays := arrays s1, propConfig := fresh s, fresh := Suc (fresh s)\<rparr>"
    and s1a: "\<forall>a. a \<noteq> fresh s \<longrightarrow> arrays s1 a = arrays s a"
    by (simp_all add: proposed_def)
  have f1: "temperature s1 = temperature s" "nruns s1 = nruns s" "buffers s1 = buffers s"
    "ind s1 = ?k" "iter s1 = iter s" "config s1 = config s" "track s1 = track s"
    by (subst s1, simp)+
  have s3: "\<exists>t. s3 = s1\<lparr>scores := ?sc, track := Some t\<rparr> \<and>
      (case track s of None \<Rightarrow> recInds t = map (\<lambda>i. []) [0..<nruns s] | Some t0 \<Rightarrow> t = t0)"
  proof (cases "track s1")
    case None
    with io have "initOptima ?sc (s1\<lparr>scores := ?sc\<rparr>) = Some s3" by simp
    from initOptima_frame[OF this] None f1(2,7) show ?thesis by auto
  next
    case (Some t)
    have "s1\<lparr>scores := ?sc, track := track s1\<rparr> = s1\<lparr>scores := ?sc\<rparr>" by simp
    then have "s1\<lparr>scores := ?sc, track := Some t\<rparr> = s1\<lparr>scores := ?sc\<rparr>"
      using Some by simp
    moreover have "s3 = s1\<lparr>scores := ?sc\<rparr>" using io Some by simp
    ultimately show ?thesis using Some f1(7) by (intro exI[of _ t]) simp
  qed
  then obtain t3 where s3e: "s3 = s1\<lparr>scores := ?sc, track := Some t3\<rparr>"
    and t3: "case track s of None \<Rightarrow> recInds t3 = map (\<lambda>i. []) [0..<nruns s] | Some t0 \<Rightarrow> t3 = t0"
    by blast
  have f3: "temperature s3 = temperature s" "nruns s3 = nruns s" "buffers s3 = buffers s"
    "ind s3 = ?k" "iter s3 = iter s" "config s3 = config s" "track s3 = Some t3"
    "arrays s3 = arrays s1"
    using f1 by (simp_all add: s3e)
  have iu: "i < nruns ?u" using assms(2) f3(2) by simp
  note k = kept_fields[OF updateConfigs_kept[OF uc]]
  have keep: "DE s' = d" "acceptanceRatio s' = ar" using k(1,9) by simp_all
  have len: "length d = length (temperature s)" using assms(3) keep(1) by simp
  then have ar: "ar = map2 acceptance d (temperature s)"
    using bc f3(1) by (simp add: bcast2_def)
  let ?r = "min 1 (exp (- (DE s' ! i) / (temperature s ! i)))"
  have ari: "ar ! i = Fin ?r" "i < length ar"
    using ar len assms(4,5) keep(1) by (simp_all add: acceptance_pos)
  have itm: "item (acceptanceRatio ?u) i = Some (Fin ?r)"
    using ari by (simp add: item_def)
  have cfg: "arrays ?u (config ?u) = arrays s (config s)"
    using s1a assms(6) f3(6,8) by simp
  have first: "acceptanceRatio s' ! i = Fin ?r \<and> 0 \<le> ?r \<and> ?r \<le> 1"
    using keep(2) ari(1) by simp
  show ?thesis
  proof (cases "alphaRandoms (buffers s) i ?k < ?r")
    case True
    then have "lt_np (alphaRandoms (buffers ?u) i (ind ?u)) (Fin ?r)"
      using f3(3,4) by simp
    from updateConfigs_accept[OF uc iu itm this] obtain prow t t' where
      v: "view ?u (propConfig ?u, i) = Some prow" "view s' (config s', i) = Some prow"
      and tt: "track ?u = Some t" "track s' = Some t'" "recInds t' ! i = recInds t ! i @ [iter ?u]"
      by blast
    have "view s' (propConfig s', i) = view ?u (propConfig ?u, i)"
      using k(6,7) by (simp add: view_def)
    then have a: "view s' (config s', i) = view s' (propConfig s', i)" "view s' (config s', i) \<noteq> None"
      using v by simp_all
    have "t = t3" using tt(1) f3(7) by simp
    then have "recInds t ! i = (case track s of None \<Rightarrow> [] | Some t \<Rightarrow> recInds t ! i)"
      using t3 assms(2) by (cases "track s") simp_all
    then have "recInds t' ! i = (case track s of None \<Rightarrow> [] | Some t \<Rightarrow> recInds t ! i) @ [iter s]"
      using tt(3) f3(5) by simp
    then have "view s' (config s', i) = view s' (propConfig s', i) \<and>
               view s' (config s', i) \<noteq> None \<and>
               (\<exists>t'. track s' = Some t' \<and>
                  recInds t' ! i = (case track s of None \<Rightarrow> [] | Some t \<Rightarrow> recInds t ! i) @ [iter s])"
      using a tt(2) by blast
    then show ?thesis unfolding if_P[OF True] using first by blast
  next
    case False
    then have "\<not> lt_np (alphaRandoms (buffers ?u) i (ind ?u)) (Fin ?r)"
      using f3(3,4) by simp
    from updateConfigs_reject_unchanged[OF uc iu itm this] have
      v: "view s' (config s', i) = view ?u (config ?u, i)" and
      m: "map_option (\<lambda>t. traj_record t i) (track s') = map_option (\<lambda>t. traj_record t i) (track ?u)"
      by simp_all
    have "view ?u (config ?u, i) = view s (config s, i)"
      using cfg f3(6) by (simp add: view_def)
    moreover have "\<forall>t. track s = Some t \<longrightarrow>
                  map_option (\<lambda>t'. traj_record t' i) (track s') = Some (traj_record t i)"
      using m f3(7) t3 by auto
    ultimately have "view s' (config s', i) = view s (config s, i) \<and>
               (\<forall>t. track s = Some t \<longrightarrow>
                  map_option (\<lambda>t'. traj_record t' i) (track s') = Some (traj_record t i))"
      using v by simp
    then show ?thesis unfolding if_not_P[OF False] using first by blast
  qed
qed

lemmas demo_defs =
  started_def stepped_def fixed_config_def two_rows_def initConvergenceStats_def

theorem iterate_metropolis_witness:
  "\<exists>s'. iterate zero_scores (started (const_draws 0 2 (1 / 2) 0 1)) = Some s' \<and>
     (0::nat) < nruns (started (const_draws 0 2 (1 / 2) 0 1)) \<and>
     0 < temperature (started (const_draws 0 2 (1 / 2) 0 1)) ! 0 \<and>
     acceptanceRatio s' ! 0 = Fin 1 \<and>
     view s' (config s', 0) = Some [2, 1] \<and>
     view s' (propConfig s', 0) = Some [2, 1]"
proof -
  let ?s = "started (const_draws 0 2 (1 / 2) 0 1)"
  obtain s' where e: "iterate zero_scores ?s = Some s'"
    and d: "length (DE s') = length (temperature ?s)" "DE s' ! 0 = 0"
    and v: "view s' (propConfig s', 0) = Some [2, 1]"
    by (simp add: run_defs demo_defs)
  have h: "0 < nruns ?s" "0 < length (temperature ?s)" "0 < temperature ?s ! 0"
    "config ?s \<noteq> fresh ?s"
    "alphaRandoms (buffers ?s) 0 (iter ?s mod randintsResampleAt ?s) = 1 / 2"
    by (simp_all add: run_defs demo_defs)
  from iterate_metropolis[OF e h(1) d(1) h(2,3,4)] d(2) h(5) v
  show ?thesis using e h(1,3) by (intro exI[of _ s']) simp
qed

subsection \<open>Rejection\<close>

text \<open>
  C10. An \<open>updateConfigs\<close> that returns, and a trajectory \<open>i\<close> whose acceptance draw
  is not below its acceptance ratio. The step of \<open>i\<close> is the identity on the state.
  After the whole pass the current row of \<open>i\<close> is as before; so is the part of
  the tracker that belongs to \<open>i\<close> (recorded optima, new-best history, acceptance
  record, \<open>E0[i]\<close>); every array other than the ensemble is as before, so every row
  a pool entry of \<open>i\<close> refers to; and the pool has only grown at its end.
\<close>

theorem rejection_leaves_trajectory_unchanged:
  assumes "updateConfigs s = Some s'" "i < nruns s"
    and "item (acceptanceRatio s) i = Some ratio"
    and "\<not> lt_np (alphaRandoms (buffers s) i (ind s)) ratio"
  shows "updateConfigs_body i s = Some s \<and>
         view s' (config s', i) = view s (config s, i) \<and>
         map_option (\<lambda>t. traj_record t i) (track s') = map_option (\<lambda>t. traj_record t i) (track s) \<and>
         (\<forall>a. a \<noteq> config s \<longrightarrow> arrays s' a = arrays s a) \<and>
         (\<exists>ext. pool_of s' = pool_of s @ ext)"
  using updateConfigs_reject_unchanged[OF assms] .

theorem rejection_leaves_trajectory_unchanged_witness:
  "\<exists>s'. updateConfigs (stepped (const_draws 0 2 (1 / 2) 0 1)\<lparr>acceptanceRatio := [Fin 0, Fin 1]\<rparr>)
          = Some s' \<and>
     (0::nat) < nruns (stepped (const_draws 0 2 (1 / 2) 0 1)\<lparr>acceptanceRatio := [Fin 0, Fin 1]\<rparr>) \<and>
     view s' (config s', 0) = Some [2, 1] \<and>
     map_option (\<lambda>t. recInds t) (track s') = Some [[0], [0, 0]]"
proof -
  let ?u = "stepped (const_draws 0 2 (1 / 2) 0 1)\<lparr>acceptanceRatio := [Fin 0, Fin 1]\<rparr>"
  obtain s' where e: "updateConfigs ?u = Some s'"
    and r: "map_option (\<lambda>t. recInds t) (track s') = Some [[0], [0, 0]]"
    by (simp add: run_defs demo_defs)
  have h: "0 < nruns ?u" "item (acceptanceRatio ?u) 0 = Some (Fin 0)"
    "\<not> lt_np (alphaRandoms (buffers ?u) 0 (ind ?u)) (Fin 0)"
    "view ?u (config ?u, 0) = Some [2, 1]"
    by (simp_all add: run_defs demo_defs)
  from rejection_leaves_trajectory_unchanged[OF e h(1,2,3)] h(4)
  show ?thesis using e h(1) r by (intro exI[of _ s']) simp
qed

subsection \<open>The energy difference\<close>

lemma bcast2_same: "length xs = length ys \<Longrightarrow> bcast2 f xs ys = Some (map2 f xs ys)"
  by (simp add: bcast2_def)

text \<open>
  C2. With one score per trajectory in both rows and one gamma per trajectory,
  \<open>getDE\<close> returns one difference per trajectory. With STUN enabled (\<open>STUN == 1\<close>)
  the difference of trajectory \<open>i\<close> is \<open>f(proposed) - f(current)\<close> for
  \<open>f(x) = 1 - exp(-gammas[i] * (x - absMin))\<close>, \<open>absMin\<close> being the tracker's global
  minimum; otherwise it is the raw difference of the two scores.
\<close>

theorem getDE_formula:
  assumes "length (fst (score sc)) = n" "length (snd (score sc)) = n" "length (gammas s) = n"
    and "i < n" "track s = Some t"
  shows "\<exists>f d. getDE sc s = Some (f, d) \<and> length d = n \<and>
     d ! i = (if STUN (config_main s) = 1
              then (1 - exp (- (gammas s ! i) * (fst (score sc) ! i - absMin t)))
                 - (1 - exp (- (gammas s ! i) * (snd (score sc) ! i - absMin t)))
              else fst (score sc) ! i - snd (score sc) ! i)"
  using assms by (simp add: getDE_def computeSTUN_def bcast2_same)

theorem getDE_formula_witness:
  "\<exists>f d. getDE \<lparr>score = ([1, 2], [3, 4]), energy = ([], []), variance = ([], [])\<rparr>
            (stepped (const_draws 0 2 (1 / 2) 0 1)) = Some (f, d) \<and>
     length d = 2 \<and>
     d ! 0 = (1 - exp (- 1 * (1 - 0))) - (1 - exp (- 1 * (3 - 0)))"
proof -
  let ?s = "stepped (const_draws 0 2 (1 / 2) 0 1)"
  let ?sc = "\<lparr>score = ([1, 2], [3, 4]), energy = ([], []), variance = ([], [])\<rparr>"
  obtain t where t: "track ?s = Some t" "absMin t = 0"
    by (simp add: run_defs demo_defs)
  have h: "length (fst (score ?sc)) = 2" "length (snd (score ?sc)) = 2"
    "length (gammas ?s) = 2" "(0::nat) < 2" "STUN (config_main ?s) = 1"
    "gammas ?s ! 0 = 1"
    by (simp_all add: run_defs demo_defs)
  from getDE_formula[OF h(1,2,3,4) t(1)] t(2) h(5,6)
  show ?thesis by simp
qed

subsection \<open>The relative-improvement test\<close>




subsection \<open>The global dedup pool\<close>

lemma those_map_SomeD:
  "those (map f xs) = Some ys \<Longrightarrow> map Some ys = map f xs"
proof (induction xs arbitrary: ys)
  case Nil
  then show ?case by simp
next
  case (Cons x xs)
  then show ?case by (auto split: option.splits)
qed

lemma count_self: "length (filter id (map2 (=) xs xs)) = length xs"
  by (induction xs) auto

lemma count_self_zip: "length (filter (\<lambda>(x, y). x = y) (zip xs xs)) = length xs"
  by (induction xs) auto

lemma pool_equals_hit:
  assumes "pool_equals prow rows = Some equals" "prow \<in> set rows"
  shows "list_ex (\<lambda>c. c = length prow) equals"
proof -
  let ?g = "\<lambda>e. map_option (\<lambda>bs. length (filter id bs)) (bcast2 (=) prow e)"
  from assms(1) have "those (map ?g rows) = Some equals"
    by (simp add: pool_equals_def split: if_splits)
  from those_map_SomeD[OF this] have m: "map Some equals = map ?g rows" .
  have g: "?g prow = Some (length prow)"
    by (simp add: bcast2_def count_self count_self_zip)
  have "Some (length prow) \<in> ?g ` set rows"
    using g[symmetric] assms(2) by (rule image_eqI)
  then have "Some (length prow) \<in> set (map ?g rows)" by simp
  then have "Some (length prow) \<in> set (map Some equals)" using m by simp
  then have "length prow \<in> set equals" by auto
  then show ?thesis by (auto simp: list_ex_iff)
qed

text \<open>
  C5, as stated, fails. A run of \<open>converge\<close> from \<open>__init__\<close>, two trajectories,
  two iterations; the sequence \<open>[2, 1]\<close> scores 1, every other 5. In iteration 0
  trajectory 0 proposes \<open>[2, 1]\<close>, a new best: the pool is seeded with the two
  initial samples (views of the ensemble rows 0 and 1) and the proposal is
  appended. In iteration 1 trajectory 1 proposes \<open>[2, 1]\<close>, a new best for it: it is
  appended again. The pool then holds, after its two seeds, two entries that both
  read \<open>[2, 1]\<close>.
\<close>

theorem pool_duplicate:
  "map_option (\<lambda>s'. (pool_of s', map (view s') (pool_of s'), map_option optimalSamples (track s')))
     (converge pair_scores two_batches (\<lambda>it i. 0) (\<lambda>it i. 2) (\<lambda>it. two_rows) (Count 2) fresh_sampler)
   = Some ([(0, 0), (0, 1), (1, 0), (2, 1)],
           [Some [2, 1], Some [2, 1], Some [2, 1], Some [2, 1]],
           Some [[(0, 0), (1, 0)], [(0, 1), (2, 1)]])"
  by (simp add: run_defs demo_defs converge_def converge_body_def run_iters_def two_batches_def
        pair_scores_def pair_score_def updateAnnealing_def fresh_sampler_def pool_of_def upt_rec)

text \<open>
  C5, amended. A call of \<open>saveOptima\<close> that returns leaves the pool as follows,
  \<open>seed_pool\<close> being the pool after the seeding of its first use. For a new best the
  proposal is appended whatever the pool holds. Otherwise the pool is unchanged, or
  the proposal is appended and no entry of the pool, seeds included, reads the
  same row as the proposal.
\<close>

theorem saveOptima_dedup:
  assumes "saveOptima i nb s = Some s'" "track s = Some t"
  shows "\<exists>t'. track s' = Some t' \<and>
     (if nb then allOptimalConfigs t' = seed_pool t @ [(propConfig s, i)]
      else allOptimalConfigs t' = seed_pool t \<or>
           allOptimalConfigs t' = seed_pool t @ [(propConfig s, i)] \<and>
           list_all (\<lambda>r. view s r \<noteq> view s (propConfig s, i)) (seed_pool t))"
proof -
  from assms(1) obtain t0 prow rows equals t1 t2 where
    t: "track s = Some t0"
    and p: "item (arrays s (propConfig s)) i = Some prow"
    and rows: "those (map (view s) (seed_pool t0)) = Some rows"
    and eq: "pool_equals prow rows = Some equals"
    and t1: "(if \<not> list_ex (\<lambda>c. c = length prow) equals \<or> nb
            then record_sample i s (seed_pool t0) t0
            else Some (t0\<lparr>allOptimalConfigs := seed_pool t0\<rparr>)) = Some t1"
    and t2: "(if nb then record_best i s t1 else Some t1) = Some t2"
    and s': "s' = s\<lparr>track := Some t2\<rparr>"
    by (rule saveOptima_SomeD)
  have tt: "t0 = t" using t assms(2) by simp
  have p2: "allOptimalConfigs t2 = allOptimalConfigs t1"
    using t2 by (auto simp: record_best_pool split: if_splits)
  have v: "view s (propConfig s, i) = Some prow" using p by (simp add: view_def)
  show ?thesis
  proof (cases nb)
    case True
    then have "allOptimalConfigs t1 = seed_pool t @ [(propConfig s, i)]"
      using t1 tt by (simp add: record_sample_pool)
    then show ?thesis using True p2 s' by simp
  next
    case False
    show ?thesis
    proof (cases "list_ex (\<lambda>c. c = length prow) equals")
      case True
      then have "allOptimalConfigs t1 = seed_pool t" using t1 tt False by auto
      then show ?thesis using False p2 s' by simp
    next
      case nohit: False
      then have a: "allOptimalConfigs t1 = seed_pool t @ [(propConfig s, i)]"
        using t1 tt by (simp add: record_sample_pool)
      have "prow \<notin> set rows" using pool_equals_hit[OF eq] nohit by blast
      moreover have "map Some rows = map (view s) (seed_pool t)"
        using those_map_SomeD[OF rows] tt by simp
      ultimately have "Some prow \<notin> set (map (view s) (seed_pool t))"
      proof -
        assume a: "prow \<notin> set rows" and b: "map Some rows = map (view s) (seed_pool t)"
        have "Some prow \<notin> set (map Some rows)" using a by auto
        then show ?thesis using b by simp
      qed
      then have "list_all (\<lambda>r. view s r \<noteq> view s (propConfig s, i)) (seed_pool t)"
        unfolding v list_all_iff by (metis image_eqI list.set_map)
      then show ?thesis using False a p2 s' by simp
    qed
  qed
qed

theorem saveOptima_dedup_witness:
  "\<exists>s' t. saveOptima 0 False
       (stepped (const_draws 0 2 (1 / 2) 0 1)
          \<lparr>track := map_option (\<lambda>t. t\<lparr>allOptimalConfigs := [(1, 1)]\<rparr>)
                      (track (stepped (const_draws 0 2 (1 / 2) 0 1)))\<rparr>) = Some s' \<and>
     track (stepped (const_draws 0 2 (1 / 2) 0 1)
          \<lparr>track := map_option (\<lambda>t. t\<lparr>allOptimalConfigs := [(1, 1)]\<rparr>)
                      (track (stepped (const_draws 0 2 (1 / 2) 0 1)))\<rparr>) = Some t \<and>
     pool_of s' = [(1, 1), (1, 0)]"
proof -
  let ?u = "stepped (const_draws 0 2 (1 / 2) 0 1)
          \<lparr>track := map_option (\<lambda>t. t\<lparr>allOptimalConfigs := [(1, 1)]\<rparr>)
                      (track (stepped (const_draws 0 2 (1 / 2) 0 1)))\<rparr>"
  obtain s' where e: "saveOptima 0 False ?u = Some s'"
    and q: "pool_of s' \<noteq> [(1, 1)]"
    by (simp add: run_defs demo_defs pool_of_def)
  obtain t where t: "track ?u = Some t" and p: "seed_pool t = [(1, 1)]" "propConfig ?u = 1"
    by (simp add: run_defs demo_defs)
  from saveOptima_dedup[OF e t] p
  have "pool_of s' = [(1, 1)] \<or> pool_of s' = [(1, 1), (1, 0)]"
    by (auto simp: pool_of_def)
  then show ?thesis using e t q by blast
qed

subsection \<open>Annealing controller: one pass\<close>

lemma resetConfig_SomeD:
  assumes "resetConfig i l sy s = Some s'"
  shows "\<exists>row. makeAConfig (dataset (config_main s)) l sy = Some row \<and>
     i < length (arrays s (config s)) \<and>
     s' = s\<lparr>arrays := (arrays s)(config s := (arrays s (config s))[i := row])\<rparr>"
  using assms by (auto simp: resetConfig_def bind_eq_Some_conv setrow_Some_iff)

lemma updateAnnealing_body_SomeD:
  assumes "updateAnnealing_body us lens syms i s = Some s'" "track s = Some t"
  shows "i < length (recInds t) \<and> i < length (acceptanceRate s) \<and> i < length (temperature s) \<and>
     i < length (resetInd s) \<and>
     (if stagnant s t i
      then \<exists>row. makeAConfig (dataset (config_main s)) (lens i) (syms i) = Some row \<and>
             i < length (arrays s (config s)) \<and>
             s' = s\<lparr>acceptanceRate := (acceptanceRate s)[i := real (acceptedRecently (iter s) (recInds t ! i)) / 100],
                    temperature := (temperature s)[i := temp0 s],
                    resetInd := (resetInd s)[i := iter s],
                    arrays := (arrays s)(config s := (arrays s (config s))[i := row])\<rparr>
      else s' = s\<lparr>acceptanceRate := (acceptanceRate s)[i := real (acceptedRecently (iter s) (recInds t ! i)) / 100],
                   temperature := (temperature s)[i :=
                      modulated s (real (acceptedRecently (iter s) (recInds t ! i)) / 100)
                        (temperature s ! i) (us i)]\<rparr>)"
proof -
  let ?rate = "real (acceptedRecently (iter s) (recInds t ! i)) / 100"
  let ?tm' = "modulated s ?rate (temperature s ! i) (us i)"
  let ?s1 = "s\<lparr>acceptanceRate := (acceptanceRate s)[i := ?rate],
                temperature := (temperature s)[i := ?tm']\<rparr>"
  from assms obtain r where
    l: "i < length (recInds t)" "i < length (acceptanceRate s)" "i < length (temperature s)"
       "i < length (resetInd s)" and r: "r = resetInd s ! i"
    and rest: "(if int (iter s) - int r > 1000 then do {
       oi \<leftarrow> item (optimalInds t) i;
       lo \<leftarrow> last_item oi;
       if int (iter s) - int lo > 1000 then do {
         s2 \<leftarrow> resetConfig i (lens i) (syms i) (?s1\<lparr>resetInd := (resetInd s)[i := iter s]\<rparr>);
         Some (s2\<lparr>temperature := (temperature s2)[i := temp0 s2]\<rparr>)
       } else Some ?s1
     } else Some ?s1) = Some s'"
    by (auto simp: updateAnnealing_body_def bind_eq_Some_conv Let_def item_Some_iff modulated_def
          split: if_splits)
  show ?thesis
  proof (cases "int (iter s) - int r > 1000")
    case False
    then show ?thesis using rest l r by (simp add: stagnant_def)
  next
    case True
    with rest obtain oi where oi: "item (optimalInds t) i = Some oi" "oi \<noteq> []"
      and rest2: "(if int (iter s) - int (last oi) > 1000 then do {
         s2 \<leftarrow> resetConfig i (lens i) (syms i) (?s1\<lparr>resetInd := (resetInd s)[i := iter s]\<rparr>);
         Some (s2\<lparr>temperature := (temperature s2)[i := temp0 s2]\<rparr>)
       } else Some ?s1) = Some s'"
      by (auto simp: bind_eq_Some_conv last_item_def split: if_splits)
    have lo: "last (optimalInds t ! i) = last oi" using oi by (simp add: item_Some_iff)
    show ?thesis
    proof (cases "int (iter s) - int (last oi) > 1000")
      case False
      then show ?thesis using rest2 l lo by (simp add: stagnant_def)
    next
      case t2: True
      then have st: "stagnant s t i" using True r lo by (simp add: stagnant_def)
      from rest2 t2 obtain s2 where
        rc: "resetConfig i (lens i) (syms i) (?s1\<lparr>resetInd := (resetInd s)[i := iter s]\<rparr>) = Some s2"
        and s': "s' = s2\<lparr>temperature := (temperature s2)[i := temp0 s2]\<rparr>"
        by (auto simp: bind_eq_Some_conv)
      from resetConfig_SomeD[OF rc] obtain row where
        "makeAConfig (dataset (config_main s)) (lens i) (syms i) = Some row"
        "i < length (arrays s (config s))"
        "s2 = ?s1\<lparr>resetInd := (resetInd s)[i := iter s],
                  arrays := (arrays s)(config s := (arrays s (config s))[i := row])\<rparr>"
        by auto
      then show ?thesis using st l s' by simp
    qed
  qed
qed


lemma akept_fields:
  assumes "akept s1 = akept s"
  shows "track s1 = track s" "iter s1 = iter s" "config s1 = config s" "temp0 s1 = temp0 s"
    "config_main s1 = config_main s" "nruns s1 = nruns s"
proof -
  from assms have e: "s1\<lparr>arrays := (\<lambda>a. []), temperature := [], acceptanceRate := [], resetInd := []\<rparr>
      = s\<lparr>arrays := (\<lambda>a. []), temperature := [], acceptanceRate := [], resetInd := []\<rparr>"
    by (simp add: akept_def)
  show "track s1 = track s" using arg_cong[OF e, of track] by simp
  show "iter s1 = iter s" using arg_cong[OF e, of iter] by simp
  show "config s1 = config s" using arg_cong[OF e, of config] by simp
  show "temp0 s1 = temp0 s" using arg_cong[OF e, of temp0] by simp
  show "config_main s1 = config_main s" using arg_cong[OF e, of config_main] by simp
  show "nruns s1 = nruns s" using arg_cong[OF e, of nruns] by simp
qed

lemma afocus_fields:
  assumes "afocus i s1 = afocus i s"
  shows "akept s1 = akept s"
    "temperature s1 ! i = temperature s ! i" "length (temperature s1) = length (temperature s)"
    "acceptanceRate s1 ! i = acceptanceRate s ! i"
    "length (acceptanceRate s1) = length (acceptanceRate s)"
    "resetInd s1 ! i = resetInd s ! i" "length (resetInd s1) = length (resetInd s)"
    "arrays s1 (config s) ! i = arrays s (config s) ! i"
    "length (arrays s1 (config s)) = length (arrays s (config s))"
proof -
  show k: "akept s1 = akept s" using assms by (simp add: afocus_def)
  have c: "config s1 = config s" using akept_fields(3)[OF k] .
  show "temperature s1 ! i = temperature s ! i" "length (temperature s1) = length (temperature s)"
    "acceptanceRate s1 ! i = acceptanceRate s ! i"
    "length (acceptanceRate s1) = length (acceptanceRate s)"
    "resetInd s1 ! i = resetInd s ! i" "length (resetInd s1) = length (resetInd s)"
    "arrays s1 (config s) ! i = arrays s (config s) ! i"
    "length (arrays s1 (config s)) = length (arrays s (config s))"
    using assms c by (simp_all add: afocus_def)
qed

lemma updateAnnealing_body_track:
  assumes "updateAnnealing_body us lens syms j s = Some s'"
  shows "\<exists>t. track s = Some t"
  using assms by (auto simp: updateAnnealing_body_def bind_eq_Some_conv)

lemma updateAnnealing_body_afocus:
  assumes "updateAnnealing_body us lens syms j s = Some s'" "j \<noteq> i"
  shows "afocus i s' = afocus i s"
proof -
  from updateAnnealing_body_track[OF assms(1)] obtain t where t: "track s = Some t" by blast
  from updateAnnealing_body_SomeD[OF assms(1) t] show ?thesis
    using assms(2) by (cases "stagnant s t j") (auto simp: afocus_def akept_def)
qed

lemma updateAnnealing_at:
  assumes "updateAnnealing us lens syms s = Some s'" "i < nruns s"
  shows "\<exists>s1 s2. updateAnnealing_body us lens syms i s1 = Some s2 \<and>
           afocus i s1 = afocus i s \<and> afocus i s' = afocus i s2"
  by (rule for_each_focus[OF assms(1)[unfolded updateAnnealing_def]])
     (use assms(2) in \<open>auto intro: updateAnnealing_body_afocus\<close>)

text \<open>The state of trajectory \<open>i\<close> after one pass of the annealing controller.\<close>

lemma updateAnnealing_result:
  assumes "updateAnnealing us lens syms s = Some s'" "i < nruns s" "track s = Some t"
  shows "i < length (recInds t) \<and> i < length (temperature s) \<and> i < length (resetInd s) \<and>
     acceptanceRate s' ! i = real (acceptedRecently (iter s) (recInds t ! i)) / 100 \<and>
     (if stagnant s t i
      then resetInd s' ! i = iter s \<and> temperature s' ! i = temp0 s \<and>
           view s' (config s', i) = makeAConfig (dataset (config_main s)) (lens i) (syms i) \<and>
           view s' (config s', i) \<noteq> None
      else resetInd s' ! i = resetInd s ! i \<and>
           temperature s' ! i =
             modulated s (real (acceptedRecently (iter s) (recInds t ! i)) / 100)
               (temperature s ! i) (us i) \<and>
           view s' (config s', i) = view s (config s, i))"
proof -
  from updateAnnealing_at[OF assms(1,2)] obtain s1 s2 where
    b: "updateAnnealing_body us lens syms i s1 = Some s2"
    and f1: "afocus i s1 = afocus i s" and f2: "afocus i s' = afocus i s2" by blast
  note a1 = afocus_fields[OF f1] and a2 = afocus_fields[OF f2]
  note k1 = akept_fields[OF a1(1)] and k2 = akept_fields[OF a2(1)]
  have t1: "track s1 = Some t" using k1(1) assms(3) by simp
  have st: "stagnant s1 t i = stagnant s t i"
    using a1(6) k1(2) by (simp add: stagnant_def)
  have md: "\<And>r x u. modulated s1 r x u = modulated s r x u"
    using k1(5) by (simp add: modulated_def)
  from updateAnnealing_body_SomeD[OF b t1] have
    l: "i < length (recInds t)" "i < length (acceptanceRate s1)" "i < length (temperature s1)"
       "i < length (resetInd s1)"
    and c: "if stagnant s1 t i
      then \<exists>row. makeAConfig (dataset (config_main s1)) (lens i) (syms i) = Some row \<and>
             i < length (arrays s1 (config s1)) \<and>
             s2 = s1\<lparr>acceptanceRate := (acceptanceRate s1)[i := real (acceptedRecently (iter s1) (recInds t ! i)) / 100],
                    temperature := (temperature s1)[i := temp0 s1],
                    resetInd := (resetInd s1)[i := iter s1],
                    arrays := (arrays s1)(config s1 := (arrays s1 (config s1))[i := row])\<rparr>
      else s2 = s1\<lparr>acceptanceRate := (acceptanceRate s1)[i := real (acceptedRecently (iter s1) (recInds t ! i)) / 100],
                   temperature := (temperature s1)[i :=
                      modulated s1 (real (acceptedRecently (iter s1) (recInds t ! i)) / 100)
                        (temperature s1 ! i) (us i)]\<rparr>"
    by simp_all
  have cs': "config s' = config s2" using k2(3) .
  have rate: "acceptanceRate s2 ! i = real (acceptedRecently (iter s) (recInds t ! i)) / 100"
    using c l k1(2) by (auto split: if_splits)
  show ?thesis
  proof (cases "stagnant s t i")
    case True
    with c st obtain row where
      row: "makeAConfig (dataset (config_main s1)) (lens i) (syms i) = Some row"
      and li: "i < length (arrays s1 (config s1))"
      and s2: "s2 = s1\<lparr>acceptanceRate := (acceptanceRate s1)[i := real (acceptedRecently (iter s1) (recInds t ! i)) / 100],
                    temperature := (temperature s1)[i := temp0 s1],
                    resetInd := (resetInd s1)[i := iter s1],
                    arrays := (arrays s1)(config s1 := (arrays s1 (config s1))[i := row])\<rparr>"
      by auto
    have v2: "view s2 (config s2, i) = Some row" using s2 li by (simp add: view_def item_def)
    have "view s' (config s', i) = view s2 (config s2, i)"
      using a2(8,9) cs' by (simp add: view_def item_def)
    then have "view s' (config s', i) = makeAConfig (dataset (config_main s)) (lens i) (syms i)"
      "view s' (config s', i) \<noteq> None"
      using v2 row k1(5) by simp_all
    moreover have "resetInd s' ! i = iter s" "temperature s' ! i = temp0 s"
      using a2(2,6) s2 l k1(2,4) by simp_all
    ultimately show ?thesis using True l a1(3,7) a2(4) rate by simp
  next
    case False
    with c st have
      s2: "s2 = s1\<lparr>acceptanceRate := (acceptanceRate s1)[i := real (acceptedRecently (iter s1) (recInds t ! i)) / 100],
                   temperature := (temperature s1)[i :=
                      modulated s1 (real (acceptedRecently (iter s1) (recInds t ! i)) / 100)
                        (temperature s1 ! i) (us i)]\<rparr>"
      by simp
    have "view s2 (config s2, i) = view s1 (config s1, i)" using s2 by (simp add: view_def)
    also have "\<dots> = view s (config s, i)"
      using a1(8,9) k1(3) by (simp add: view_def item_def)
    finally have e1: "view s2 (config s2, i) = view s (config s, i)" .
    have e2: "view s' (config s', i) = view s2 (config s2, i)"
      using a2(8,9) cs' by (simp add: view_def item_def)
    have "view s' (config s', i) = view s (config s, i)"
      by (rule trans[OF e2 e1])
    moreover have "resetInd s' ! i = resetInd s ! i"
      using a2(6) s2 a1(6) by simp
    moreover have "temperature s' ! i =
             modulated s (real (acceptedRecently (iter s) (recInds t ! i)) / 100)
               (temperature s ! i) (us i)"
      using a2(2) s2 l a1(2) k1(2) md by simp
    ultimately show ?thesis using False l a1(3,7) a2(4) rate by simp
  qed
qed

subsection \<open>The rolling acceptance window\<close>

lemma strict_sorted_gap:
  fixes rs :: "nat list"
  assumes "sorted_wrt (<) rs" "m < length rs"
  shows "j \<le> m \<Longrightarrow> rs ! j + (m - j) \<le> rs ! m"
proof (induction "m - j" arbitrary: j)
  case 0
  then show ?case by simp
next
  case (Suc d)
  then have j: "Suc j \<le> m" "d = m - Suc j" by simp_all
  from Suc.hyps(1)[OF j(2) j(1)] have "rs ! Suc j + (m - Suc j) \<le> rs ! m" .
  moreover have "rs ! j < rs ! Suc j"
    using assms j(1) by (simp add: sorted_wrt_nth_less)
  ultimately show ?case using j(1) by simp
qed

lemma acceptedRecently_count:
  assumes "sorted_wrt (<) rs" "list_all (\<lambda>r. r \<le> it) rs"
  shows "acceptedRecently it rs = length (filter (\<lambda>r. it < r + 100) rs)"
proof -
  let ?k = "length rs - 100"
  have old: "filter (\<lambda>r. it < r + 100) (take ?k rs) = []"
  proof -
    have "\<forall>r \<in> set (take ?k rs). \<not> it < r + 100"
    proof
      fix r assume "r \<in> set (take ?k rs)"
      then obtain j where j: "j < ?k" "r = rs ! j"
        by (auto simp: in_set_conv_nth)
      let ?m = "length rs - 1"
      have m: "?m < length rs" "j \<le> ?m" using j(1) by simp_all
      from strict_sorted_gap[OF assms(1) m] have "rs ! j + (?m - j) \<le> rs ! ?m" .
      moreover have "rs ! ?m \<le> it"
        using assms(2) m(1) by (simp add: list_all_length)
      moreover have "100 \<le> ?m - j" using j(1) by simp
      ultimately show "\<not> it < r + 100" using j(2) by simp
    qed
    then show ?thesis by (simp add: filter_empty_conv)
  qed
  have "filter (\<lambda>r. it < r + 100) rs
      = filter (\<lambda>r. it < r + 100) (take ?k rs) @ filter (\<lambda>r. it < r + 100) (drop ?k rs)"
    by (metis append_take_drop_id filter_append)
  then have "length (filter (\<lambda>r. it < r + 100) rs) = length (filter (\<lambda>r. it < r + 100) (drop ?k rs))"
    using old by simp
  moreover have "(\<lambda>r. int it - int r < 100) = (\<lambda>r. it < r + 100)"
    by (auto simp: fun_eq_iff)
  ultimately show ?thesis by (simp add: acceptedRecently_def)
qed

subsection \<open>Stagnation reset\<close>

lemmas anneal_defs =
  postSampleAnnealing_def postSampleAnnealing_body_def converge_body_def
  updateAnnealing_def updateAnnealing_body_def pair_scores_def pair_score_def
  resetConfig_def last_item_def acceptedRecently_def stale_sampler_def upt_rec pool_of_def




subsection \<open>Rolling acceptance rate and temperature\<close>

text \<open>
  C7. A pass of the annealing controller that returns, for a trajectory \<open>i\<close> whose
  acceptance record is strictly increasing and not beyond the current iteration
  (as it is within one run), with positive temperature and \<open>temp0\<close> and a draw \<open>u\<close>
  in \<open>[0, 1)\<close>. The stored rate is the number of accepted iterations among the last
  100 iterations, divided by 100. The temperature has been multiplied by \<open>1 + u\<close>
  if the rate is below the target and by \<open>1 - u\<close> otherwise; where the stagnation
  reset of the same pass fires, the product is then replaced by \<open>temp0\<close>. The
  temperature is positive afterwards.
\<close>

theorem updateAnnealing_rate_temperature:
  assumes "updateAnnealing us lens syms s = Some s'" "i < nruns s" "track s = Some t"
    and "sorted_wrt (<) (recInds t ! i)" "list_all (\<lambda>r. r \<le> iter s) (recInds t ! i)"
    and "0 < temperature s ! i" "0 \<le> us i" "us i < 1" "0 < temp0 s"
  shows "acceptanceRate s' ! i
           = real (length (filter (\<lambda>r. iter s < r + 100) (recInds t ! i))) / 100 \<and>
         temperature s' ! i =
           (if stagnant s t i then temp0 s
            else if acceptanceRate s' ! i < target_acceptance_rate (config_main s)
              then temperature s ! i * (1 + us i)
              else temperature s ! i * (1 - us i)) \<and>
         0 < temperature s' ! i"
proof -
  let ?rate = "real (acceptedRecently (iter s) (recInds t ! i)) / 100"
  from updateAnnealing_result[OF assms(1-3)] have
    r: "acceptanceRate s' ! i = ?rate"
    and c: "if stagnant s t i then temperature s' ! i = temp0 s
            else temperature s' ! i = modulated s ?rate (temperature s ! i) (us i)"
    by (simp_all split: if_splits)
  have r': "acceptanceRate s' ! i
           = real (length (filter (\<lambda>r. iter s < r + 100) (recInds t ! i))) / 100"
    using r acceptedRecently_count[OF assms(4,5)] by simp
  have tm: "temperature s' ! i =
           (if stagnant s t i then temp0 s
            else if acceptanceRate s' ! i < target_acceptance_rate (config_main s)
              then temperature s ! i * (1 + us i)
              else temperature s ! i * (1 - us i))"
    using c r by (simp add: modulated_def)
  have "0 < temperature s ! i * (1 + us i)" "0 < temperature s ! i * (1 - us i)"
    using assms(6-8) by simp_all
  then have "0 < temperature s' ! i"
    using tm assms(9) by (simp split: if_splits)
  then show ?thesis using r' tm by blast
qed

theorem updateAnnealing_rate_temperature_witness:
  "\<exists>s'. updateAnnealing (\<lambda>i. 1 / 2) (\<lambda>i. 2) (\<lambda>i. [4, 4])
            (stepped (const_draws 0 2 (1 / 2) 0 1)\<lparr>iter := 10\<rparr>) = Some s' \<and>
     map_option (\<lambda>t. recInds t ! 0) (track (stepped (const_draws 0 2 (1 / 2) 0 1)\<lparr>iter := 10\<rparr>))
       = Some [0] \<and>
     acceptanceRate s' ! 0 = 1 / 100 \<and>
     temperature s' ! 0 = 15 / 100 \<and>
     0 < temperature s' ! 0"
proof -
  let ?s = "stepped (const_draws 0 2 (1 / 2) 0 1)\<lparr>iter := 10\<rparr>"
  obtain s' where e: "updateAnnealing (\<lambda>i. 1 / 2) (\<lambda>i. 2) (\<lambda>i. [4, 4]) ?s = Some s'"
    by (simp add: run_defs demo_defs anneal_defs)
  obtain t where t: "track ?s = Some t" and r: "recInds t ! 0 = [0]"
    and st: "\<not> stagnant ?s t 0"
    by (simp add: run_defs demo_defs anneal_defs stagnant_def)
  have h: "0 < nruns ?s" "iter ?s = 10" "0 < temperature ?s ! 0" "temperature ?s ! 0 = 1 / 10"
    "0 < temp0 ?s" "target_acceptance_rate (config_main ?s) = 234 / 1000"
    by (simp_all add: run_defs demo_defs)
  have so: "sorted_wrt (<) (recInds t ! 0)" "list_all (\<lambda>r. r \<le> iter ?s) (recInds t ! 0)"
    using r h(2) by simp_all
  have u: "(0::real) \<le> 1 / 2" "(1::real) / 2 < 1" by simp_all
  from updateAnnealing_rate_temperature[OF e h(1) t so h(3) u h(5)] r st h(2,4,6)
  show ?thesis using e t by (intro exI[of _ s']) simp
qed

subsection \<open>Post-sample annealing\<close>

lemma iterate_frame:
  assumes "iterate gs s = Some s'"
  shows "temperature s' = temperature s" "temp0 s' = temp0 s" "config_main s' = config_main s"
    "nruns s' = nruns s" "randintsResampleAt s' = randintsResampleAt s"
    "resetInd s' = resetInd s" "acceptanceRate s' = acceptanceRate s" "iter s' = iter s"
proof -
  let ?k = "iter s mod randintsResampleAt s"
  from assms obtain s1 s3 f d ar where
    pc: "propConfigs ?k (s\<lparr>ind := ?k\<rparr>) = Some s1"
    and io: "(case track s1 of
        None \<Rightarrow> initOptima (gs (arrays s1 (propConfig s1)) (arrays s1 (config s1)))
                 (s1\<lparr>scores := gs (arrays s1 (propConfig s1)) (arrays s1 (config s1))\<rparr>)
      | Some t \<Rightarrow> Some (s1\<lparr>scores := gs (arrays s1 (propConfig s1)) (arrays s1 (config s1))\<rparr>)) = Some s3"
    and uc: "updateConfigs (s3\<lparr>F := f, DE := d, acceptanceRatio := ar\<rparr>) = Some s'"
    by (rule iterate_SomeD)
  let ?sc = "gs (arrays s1 (propConfig s1)) (arrays s1 (config s1))"
  from propConfigs_frame[OF pc] have
    s1: "s1 = s\<lparr>ind := ?k, arrays := arrays s1, propConfig := fresh s, fresh := Suc (fresh s)\<rparr>"
    by (simp add: proposed_def)
  have f1: "temperature s1 = temperature s" "temp0 s1 = temp0 s" "config_main s1 = config_main s"
    "nruns s1 = nruns s" "randintsResampleAt s1 = randintsResampleAt s"
    "resetInd s1 = resetInd s" "acceptanceRate s1 = acceptanceRate s" "iter s1 = iter s"
    by (subst s1, simp)+
  have "\<exists>t. s3 = s1\<lparr>scores := ?sc, track := t\<rparr>"
  proof (cases "track s1")
    case None
    with io have "initOptima ?sc (s1\<lparr>scores := ?sc\<rparr>) = Some s3" by simp
    from initOptima_frame[OF this] show ?thesis by auto
  next
    case (Some t)
    then have "s3 = s1\<lparr>scores := ?sc\<rparr>" using io by simp
    then have "s3 = s1\<lparr>scores := ?sc, track := track s1\<rparr>" by simp
    then show ?thesis by blast
  qed
  then obtain t3 where s3: "s3 = s1\<lparr>scores := ?sc, track := t3\<rparr>" by blast
  note k = kept_fields[OF updateConfigs_kept[OF uc]]
  show "temperature s' = temperature s" "temp0 s' = temp0 s" "config_main s' = config_main s"
    "nruns s' = nruns s" "randintsResampleAt s' = randintsResampleAt s"
    "resetInd s' = resetInd s" "acceptanceRate s' = acceptanceRate s" "iter s' = iter s"
    using k(4,8,11,12,13,15,17,18) f1 by (simp_all add: s3)
qed

lemma for_each_upt:
  assumes "for_each body [a..<b] s = Some s'" "a \<le> b" "I a s"
    and step: "\<And>k x y. k < b \<Longrightarrow> I k x \<Longrightarrow> body k x = Some y \<Longrightarrow> I (Suc k) y"
  shows "I b s'"
  using assms(1-3)
proof (induction "b - a" arbitrary: a s)
  case 0
  then show ?case by simp
next
  case (Suc n)
  then have ab: "a < b" by simp
  then have u: "[a..<b] = a # [Suc a..<b]" by (simp add: upt_rec)
  from Suc.prems(1) obtain s1 where b1: "body a s = Some s1"
    and r: "for_each body [Suc a..<b] s1 = Some s'"
    unfolding u by (auto simp: bind_eq_Some_conv)
  have i1: "I (Suc a) s1" using step[OF ab Suc.prems(3) b1] .
  have n: "n = b - Suc a" using Suc.hyps(2) by simp
  show ?case by (rule Suc.hyps(1)[OF n r _ i1]) (use ab in simp)
qed

lemma postSampleAnnealing_body_frame:
  assumes "postSampleAnnealing_body gs bs it s = Some s'"
  shows "temperature s' = map (\<lambda>tmp. tmp * (99 / 100)) (temperature s)"
    "temp0 s' = temp0 s" "config_main s' = config_main s" "nruns s' = nruns s"
    "resetInd s' = resetInd s" "acceptanceRate s' = acceptanceRate s"
proof -
  from assms[unfolded postSampleAnnealing_body_def Let_def bind_eq_Some_conv]
  obtain s1 where i: "iterate gs (s\<lparr>iter := it\<rparr>) = Some s1"
    and s': "(if it mod randintsResampleAt
                   (s1\<lparr>temperature := map (\<lambda>tmp. tmp * (99 / 100)) (temperature s1)\<rparr>) = 0
        then resampleRandints (bs (Suc it))
               (s1\<lparr>temperature := map (\<lambda>tmp. tmp * (99 / 100)) (temperature s1)\<rparr>)
        else Some (s1\<lparr>temperature := map (\<lambda>tmp. tmp * (99 / 100)) (temperature s1)\<rparr>)) = Some s'"
    by (elim exE conjE)
  from s' have s'': "\<exists>b. s' = s1\<lparr>temperature := map (\<lambda>tmp. tmp * (99 / 100)) (temperature s1),
                               buffers := b\<rparr>"
    by (auto simp: resampleRandints_def split: if_splits
          intro: exI[of _ "buffers s1"])
  note f = iterate_frame[OF i]
  show "temperature s' = map (\<lambda>tmp. tmp * (99 / 100)) (temperature s)"
    "temp0 s' = temp0 s" "config_main s' = config_main s" "nruns s' = nruns s"
    "resetInd s' = resetInd s" "acceptanceRate s' = acceptanceRate s"
    using f s'' by auto
qed

text \<open>
  C8. A \<open>postSampleAnnealing\<close> that returns has disabled STUN, has set \<open>temp0\<close> to
  0.01 and started every trajectory at it, and leaves every trajectory at
  \<open>temp0 * 0.99 ^ post_annealing_time\<close>: each pass of its loop multiplies every
  temperature by 0.99 once and nothing else touches them. The annealing
  controller has not run: the reset iterations and the rolling acceptance rates
  are as \<open>initConvergenceStats\<close> set them.
\<close>

theorem postSampleAnnealing_temperature:
  assumes "postSampleAnnealing gs bs initConfigs s = Some s'"
  shows "STUN (config_main s') = 0 \<and> temp0 s' = 1 / 100 \<and> nruns s' = length initConfigs \<and>
         temperature s' = replicate (length initConfigs)
            (1 / 100 * (99 / 100) ^ post_annealing_time (config_main s)) \<and>
         resetInd s' = replicate (length initConfigs) 0 \<and>
         acceptanceRate s' = replicate (length initConfigs) 0"
proof -
  let ?m = "length initConfigs"
  let ?n = "post_annealing_time (config_main s)"
  let ?s0 = "s\<lparr>config_main := (config_main s)\<lparr>STUN := 0\<rparr>,
                 nruns := ?m,
                 temp0 := 1 / 100,
                 temperature := replicate ?m (1 / 100),
                 arrays := (arrays s)(fresh s := initConfigs),
                 config := fresh s,
                 fresh := Suc (fresh s)\<rparr>"
  let ?s1 = "(initConvergenceStats ?s0)\<lparr>buffers := bs 0\<rparr>"
  let ?I = "\<lambda>k x. config_main x = (config_main s)\<lparr>STUN := 0\<rparr> \<and> temp0 x = 1 / 100 \<and>
       nruns x = ?m \<and> temperature x = replicate ?m (1 / 100 * (99 / 100) ^ k) \<and>
       resetInd x = replicate ?m 0 \<and> acceptanceRate x = replicate ?m 0"
  from assms have loop: "for_each (postSampleAnnealing_body gs bs) [0..<?n] ?s1 = Some s'"
    by (auto simp: postSampleAnnealing_def Let_def resampleRandints_def initConvergenceStats_def
          bind_eq_Some_conv split: if_splits)
  have "?I ?n s'"
  proof (rule for_each_upt[OF loop, where I = ?I])
    show "0 \<le> ?n" by simp
    show "?I 0 ?s1" by (simp add: initConvergenceStats_def)
  next
    fix k x y
    assume a: "?I k x" "postSampleAnnealing_body gs bs k x = Some y"
    from postSampleAnnealing_body_frame[OF a(2)] a(1)
    show "?I (Suc k) y" by (simp add: map_replicate)
  qed
  then show ?thesis by simp
qed

theorem postSampleAnnealing_temperature_witness:
  "\<exists>s'. postSampleAnnealing zero_scores (\<lambda>k. const_draws 0 1 0 0 1) [[1, 1], [2, 2]] fresh_sampler
          = Some s' \<and>
     post_annealing_time (config_main fresh_sampler) = 2 \<and>
     STUN (config_main s') = 0 \<and>
     temperature s' = [1 / 100 * (99 / 100) ^ 2, 1 / 100 * (99 / 100) ^ 2]"
proof -
  obtain s' where e: "postSampleAnnealing zero_scores (\<lambda>k. const_draws 0 1 0 0 1)
      [[1, 1], [2, 2]] fresh_sampler = Some s'"
    by (simp add: run_defs demo_defs anneal_defs fresh_sampler_def)
  have h: "post_annealing_time (config_main fresh_sampler) = 2"
    by (simp add: run_defs demo_defs fresh_sampler_def)
  from postSampleAnnealing_temperature[OF e] h
  show ?thesis using e by (intro exI[of _ s']) (simp add: numeral_2_eq_2)
qed

end
